theory Spec2Isabelle
  imports Complex_Main "HOL-Library.List_Lexorder"
begin

section \<open>Python values\<close>

text \<open>
  A Python \<open>str\<close> is a sequence of Unicode code points; the scripts compare, strip, join
  and slice such strings, and their constants are Chinese text, so a string is modelled as
  the list of its code points. \<open>u\<close> turns an ASCII literal into such a list.
\<close>

type_synonym pystr = "nat list"

definition u :: "string \<Rightarrow> pystr" where
  "u s = map of_char s"

text \<open>
  A Python \<open>float\<close>: every finite float is a real number, and the comparisons the scripts
  make on floats are the comparisons of these reals, with the IEEE rules for the
  infinities and for NaN.
\<close>

datatype pyfloat = Fin real | PosInf | NegInf | NaN

text \<open>
  A value decoded from JSON (\<open>json.loads\<close>, \<open>resp.json()\<close>). A \<open>dict\<close> keeps its
  insertion order, which \<open>json.dumps\<close> and iteration follow, so it is an association list.
\<close>

datatype json =
    JNull
  | JBool bool
  | JInt int
  | JFloat pyfloat
  | JStr pystr
  | JList "json list"
  | JDict "(pystr \<times> json) list"

type_synonym pydict = "(pystr \<times> json) list"

fun is_dict :: "json \<Rightarrow> bool" where
  "is_dict (JDict d) = True"
| "is_dict v = False"

fun is_list :: "json \<Rightarrow> bool" where
  "is_list (JList xs) = True"
| "is_list v = False"

text \<open>Truth value of a Python object, as \<open>if v\<close>, \<open>not v\<close> and \<open>v or w\<close> test it.\<close>

fun truthy :: "json \<Rightarrow> bool" where
  "truthy JNull = False"
| "truthy (JBool b) = b"
| "truthy (JInt n) = (n \<noteq> 0)"
| "truthy (JFloat f) = (f \<noteq> Fin 0)"
| "truthy (JStr s) = (s \<noteq> [])"
| "truthy (JList xs) = (xs \<noteq> [])"
| "truthy (JDict d) = (d \<noteq> [])"

definition py_or :: "json \<Rightarrow> json \<Rightarrow> json" where
  "py_or a b = (if truthy a then a else b)"

text \<open>\<open>d.get(k)\<close> is \<open>None\<close> for a missing key; \<open>d.get(k, default)\<close> is the default.\<close>

definition dict_get_default :: "pydict \<Rightarrow> pystr \<Rightarrow> json \<Rightarrow> json" where
  "dict_get_default d k dflt = (case map_of d k of Some v \<Rightarrow> v | None \<Rightarrow> dflt)"

definition dict_get :: "pydict \<Rightarrow> pystr \<Rightarrow> json" where
  "dict_get d k = dict_get_default d k JNull"

text \<open>\<open>d[k] = v\<close>: an existing key keeps its position, a new key goes to the end.\<close>

fun dict_set :: "pydict \<Rightarrow> pystr \<Rightarrow> json \<Rightarrow> pydict" where
  "dict_set [] k v = [(k, v)]"
| "dict_set ((k', v') # d) k v = (if k' = k then (k, v) # d else (k', v') # dict_set d k v)"

subsection \<open>Strings\<close>

text \<open>The code points for which \<open>str.isspace\<close> holds; \<open>str.strip()\<close> removes them at both ends.\<close>

definition py_isspace :: "nat \<Rightarrow> bool" where
  "py_isspace c \<longleftrightarrow>
     (9 \<le> c \<and> c \<le> 13) \<or> (28 \<le> c \<and> c \<le> 32) \<or> c = 133 \<or> c = 160 \<or> c = 5760
     \<or> (8192 \<le> c \<and> c \<le> 8202) \<or> c = 8232 \<or> c = 8233 \<or> c = 8239 \<or> c = 8287
     \<or> c = 12288"

definition py_strip :: "pystr \<Rightarrow> pystr" where
  "py_strip s = rev (dropWhile py_isspace (rev (dropWhile py_isspace s)))"

text \<open>\<open>sep.join(xs)\<close>.\<close>

fun py_join :: "pystr \<Rightarrow> pystr list \<Rightarrow> pystr" where
  "py_join sep [] = []"
| "py_join sep [x] = x"
| "py_join sep (x # y # ys) = x @ sep @ py_join sep (y # ys)"

text \<open>\<open>sub in s\<close> on strings.\<close>

fun py_contains :: "pystr \<Rightarrow> pystr \<Rightarrow> bool" where
  "py_contains sub [] = (sub = [])"
| "py_contains sub (c # cs) = (take (length sub) (c # cs) = sub \<or> py_contains sub cs)"

text \<open>Decimal digits of a natural number and \<open>str(n)\<close> for an \<open>int\<close>.\<close>

fun dec_nat :: "nat \<Rightarrow> pystr" where
  "dec_nat n = (if n < 10 then [48 + n] else dec_nat (n div 10) @ [48 + n mod 10])"

declare dec_nat.simps [simp del]

definition dec_int :: "int \<Rightarrow> pystr" where
  "dec_int i = (if i < 0 then 45 # dec_nat (nat (- i)) else dec_nat (nat i))"

text \<open>
  \<open>str(v)\<close>. For \<open>None\<close>, a \<open>bool\<close>, an \<open>int\<close> and a \<open>str\<close> the result is written out; for a
  float, a list and a dict it is Python's \<open>repr\<close>, which the model takes as the function
  \<open>repr\<close>.
\<close>

fun py_str :: "(json \<Rightarrow> pystr) \<Rightarrow> json \<Rightarrow> pystr" where
  "py_str repr JNull = u ''None''"
| "py_str repr (JBool b) = (if b then u ''True'' else u ''False'')"
| "py_str repr (JInt n) = dec_int n"
| "py_str repr (JStr s) = s"
| "py_str repr v = repr v"

section \<open>Deduplication\<close>

subsection \<open>The Guangdong consolidation script\<close>

text \<open>
  \<open>ms_to_datetime_str(ms)\<close>: empty for \<open>None\<close> and for the empty string. Otherwise it is the
  Beijing-time text of the millisecond timestamp \<open>int(ms)\<close>, or \<open>str(ms)\<close> when that
  conversion raises; the model takes this text as the function \<open>fmt\<close>.
\<close>

definition ms_to_datetime_str :: "(json \<Rightarrow> pystr) \<Rightarrow> json \<Rightarrow> pystr" where
  "ms_to_datetime_str fmt ms = (if ms = JNull \<or> ms = JStr [] then [] else fmt ms)"

text \<open>
  \<open>norm(item, source_file)\<close>: the row with the twenty Chinese column names, in the order
  of the source. The first is the product id (U+4EA7 U+54C1 I D), the second the product
  number (U+4EA7 U+54C1 U+7F16 U+53F7); the last is the comma-joined sorted list of the
  item's own keys.
\<close>

definition gd_norm :: "(json \<Rightarrow> pystr) \<Rightarrow> pydict \<Rightarrow> pystr \<Rightarrow> pydict" where
  "gd_norm fmt item source_file =
     [([0x4EA7, 0x54C1, 0x49, 0x44], dict_get_default item (u ''id'') (JStr [])),
      ([0x4EA7, 0x54C1, 0x7F16, 0x53F7], dict_get_default item (u ''spSn'') (JStr [])),
      ([0x4EA7, 0x54C1, 0x540D, 0x79F0], dict_get_default item (u ''spMc'') (JStr [])),
      ([0x53D1, 0x5E03, 0x65B9, 0x4F01, 0x4E1A], dict_get_default item (u ''fbfQyMc'') (JStr [])),
      ([0x4EA7, 0x54C1, 0x7C7B, 0x578B], dict_get_default item (u ''spsjlxMc'') (JStr [])),
      ([0x4EA7, 0x54C1, 0x5206, 0x7C7B], dict_get_default item (u ''spsjlxFlMc'') (JStr [])),
      ([0x4EA4, 0x4ED8, 0x65B9, 0x5F0F], dict_get_default item (u ''jfxtMc'') (JStr [])),
      ([0x5E94, 0x7528, 0x9886, 0x57DF],
         py_or (dict_get_default item (u ''yylyMcs'') (JStr [])) (JStr [])),
      ([0x5E94, 0x7528, 0x573A, 0x666F],
         py_or (dict_get_default item (u ''yycjMcs'') (JStr [])) (JStr [])),
      ([0x9500, 0x552E, 0x4EF7, 0x683C], dict_get_default item (u ''xsjg'') (JStr [])),
      ([0x4EF7, 0x683C, 0x5355, 0x4F4D], dict_get_default item (u ''xsgg'') (JStr [])),
      ([0x4EA7, 0x54C1, 0x63CF, 0x8FF0], dict_get_default item (u ''spms'') (JStr [])),
      ([0x5217, 0x8868, 0x56FE, 0x8DEF, 0x5F84], dict_get_default item (u ''lbtDz'') (JStr [])),
      ([0x521B, 0x5EFA, 0x65F6, 0x95F4],
         JStr (ms_to_datetime_str fmt (dict_get item (u ''cjsj'')))),
      ([0x4E0A, 0x67B6, 0x65F6, 0x95F4],
         JStr (ms_to_datetime_str fmt (dict_get item (u ''spsjSj'')))),
      ([0x4EA7, 0x54C1, 0x72B6, 0x6001, 0x7801], dict_get_default item (u ''spzt'') (JStr [])),
      ([0x662F, 0x5426, 0x4E25, 0x9009], dict_get_default item (u ''sfSsYp'') (JStr [])),
      ([0x662F, 0x5426, 0x6709, 0x6548], dict_get_default item (u ''sfyx'') (JStr [])),
      ([0x6765, 0x6E90, 0x6587, 0x4EF6], JStr source_file),
      ([0x539F, 0x59CB, 0x5B57, 0x6BB5, 0x5217, 0x8868],
         JStr (py_join (u '','') (sort (map fst item))))]"

text \<open>
  \<open>dedup_key(r)\<close>: the stripped text of the product id, and when that is empty the
  stripped text of the product number.
\<close>

definition dedup_key :: "(json \<Rightarrow> pystr) \<Rightarrow> pydict \<Rightarrow> pystr" where
  "dedup_key repr r =
     (let k = py_strip (py_str repr (dict_get_default r [0x4EA7, 0x54C1, 0x49, 0x44] (JStr [])))
      in if k \<noteq> [] then k
         else py_strip (py_str repr
                (dict_get_default r [0x4EA7, 0x54C1, 0x7F16, 0x53F7] (JStr []))))"

text \<open>
  The loop of \<open>main\<close> over the rows of one file. An entry that is not a dict is skipped;
  the others are normalised, and a row whose key is empty or already seen is skipped
  (\<open>if not k or k in seen: continue\<close>); otherwise its key is added to \<open>seen\<close> and the row is
  appended to \<open>rows_out\<close>. The state is the pair of \<open>seen\<close> and \<open>rows_out\<close>.
\<close>

type_synonym gd_state = "pystr set \<times> pydict list"

fun gd_rows :: "(json \<Rightarrow> pystr) \<Rightarrow> (json \<Rightarrow> pystr) \<Rightarrow> pystr \<Rightarrow> json list \<Rightarrow>
    gd_state \<Rightarrow> gd_state" where
  "gd_rows repr fmt base [] st = st"
| "gd_rows repr fmt base (JDict it # its) (seen, rows_out) =
     (let r = gd_norm fmt it base; k = dedup_key repr r
      in if k = [] \<or> k \<in> seen then gd_rows repr fmt base its (seen, rows_out)
         else gd_rows repr fmt base its (insert k seen, rows_out @ [r]))"
| "gd_rows repr fmt base (it # its) st = gd_rows repr fmt base its st"

text \<open>
  The loop of \<open>main\<close> over the files: each file is its base name and what
  \<open>read_json_file\<close> gives (\<open>None\<close> when reading or parsing raises). A file that does not
  parse, whose value is not a dict with a dict under \<open>data\<close>, or whose \<open>data.rows\<close> is not
  a list, is skipped.
\<close>

fun gd_file_rows :: "json option \<Rightarrow> json list option" where
  "gd_file_rows (Some (JDict j)) =
     (case dict_get j (u ''data'') of
        JDict data \<Rightarrow> (case dict_get data (u ''rows'') of JList rows \<Rightarrow> Some rows | _ \<Rightarrow> None)
      | _ \<Rightarrow> None)"
| "gd_file_rows v = None"

fun gd_files :: "(json \<Rightarrow> pystr) \<Rightarrow> (json \<Rightarrow> pystr) \<Rightarrow> (pystr \<times> json option) list \<Rightarrow>
    gd_state \<Rightarrow> gd_state" where
  "gd_files repr fmt [] st = st"
| "gd_files repr fmt ((base, j) # fs) st =
     (case gd_file_rows j of
        None \<Rightarrow> gd_files repr fmt fs st
      | Some rows \<Rightarrow> gd_files repr fmt fs (gd_rows repr fmt base rows st))"

definition gd_main :: "(json \<Rightarrow> pystr) \<Rightarrow> (json \<Rightarrow> pystr) \<Rightarrow> (pystr \<times> json option) list \<Rightarrow>
    gd_state" where
  "gd_main repr fmt fs = gd_files repr fmt fs ({}, [])"

subsection \<open>The Hubei browser crawler\<close>

text \<open>
  One product card as \<open>extract_products_on_page\<close> builds it: every text field is a string
  or \<open>None\<close>, \<open>tags\<close> is a list of strings.
\<close>

record hb_item =
  title :: "pystr option"
  detail_url :: "pystr option"
  org :: "pystr option"
  price :: "pystr option"
  delivery :: "pystr option"
  scenarios :: "pystr option"
  tags :: "pystr list"
  cert_img :: "pystr option"

text \<open>
  The key \<open>x.get("detail_url") or (x.get("title"), x.get("org"))\<close>: the URL when it is a
  non-empty string, otherwise the pair of title and organisation.
\<close>

datatype hb_key = KUrl pystr | KPair "pystr option" "pystr option"

definition hb_key_of :: "hb_item \<Rightarrow> hb_key" where
  "hb_key_of x =
     (case detail_url x of
        Some s \<Rightarrow> if s \<noteq> [] then KUrl s else KPair (title x) (org x)
      | None \<Rightarrow> KPair (title x) (org x))"

text \<open>\<open>not key\<close>: an empty string is false, a pair (a tuple of two) is never false.\<close>

fun hb_key_falsy :: "hb_key \<Rightarrow> bool" where
  "hb_key_falsy (KUrl s) = (s = [])"
| "hb_key_falsy (KPair t g) = False"

text \<open>
  The loop of \<open>main\<close> over the cards of one page: a card whose key is false or already
  seen is skipped, otherwise its key is added to \<open>seen\<close> and the card is appended to the
  record log (\<open>append_jsonl\<close>). The state is the pair of \<open>seen\<close> and the log.
\<close>

type_synonym hb_state = "hb_key set \<times> hb_item list"

fun hb_items :: "hb_item list \<Rightarrow> hb_state \<Rightarrow> hb_state" where
  "hb_items [] st = st"
| "hb_items (x # xs) (seen, jl) =
     (let key = hb_key_of x
      in if hb_key_falsy key \<or> key \<in> seen then hb_items xs (seen, jl)
         else hb_items xs (insert key seen, jl @ [x]))"

section \<open>Tag fields\<close>

subsection \<open>The Anhui crawler\<close>

text \<open>
  The text of one entry of \<open>productTag\<close>: for a dict the first true value among \<open>tagId\<close>,
  \<open>proCommonTagId\<close> and \<open>proTagId\<close>, else the empty string; for anything else the entry
  itself; in both cases through \<open>str\<close>.
\<close>

fun tag_text :: "(json \<Rightarrow> pystr) \<Rightarrow> json \<Rightarrow> pystr" where
  "tag_text repr (JDict t) =
     py_str repr (py_or (py_or (py_or (dict_get t (u ''tagId''))
        (dict_get t (u ''proCommonTagId''))) (dict_get t (u ''proTagId''))) (JStr []))"
| "tag_text repr t = py_str repr t"

text \<open>
  The loop that drops empty tags and repeats and keeps the order: each tag is stripped,
  skipped when it is empty or in \<open>seen\<close>, else added to \<open>seen\<close> and appended to \<open>out\<close>.
\<close>

fun dedup_tags :: "pystr list \<Rightarrow> pystr set \<Rightarrow> pystr list \<Rightarrow> pystr list" where
  "dedup_tags [] seen out = out"
| "dedup_tags (x # xs) seen out =
     (let x' = py_strip x
      in if x' = [] \<or> x' \<in> seen then dedup_tags xs seen out
         else dedup_tags xs (insert x' seen) (out @ [x']))"

definition flatten_product_tags :: "(json \<Rightarrow> pystr) \<Rightarrow> json \<Rightarrow> pystr" where
  "flatten_product_tags repr product_tag =
     (if \<not> truthy product_tag then []
      else case product_tag of
        JList ts \<Rightarrow> py_join (u ''|'') (dedup_tags (map (tag_text repr) ts) {} [])
      | _ \<Rightarrow> py_str repr product_tag)"

text \<open>
  The order-preserving de-duplication the specification asks for, written without a loop:
  the non-empty stripped tags, each kept at its first occurrence only.
\<close>

definition first_occurrences :: "pystr list \<Rightarrow> pystr list" where
  "first_occurrences xs = rev (remdups (rev (filter (\<lambda>x. x \<noteq> []) (map py_strip xs))))"

subsection \<open>The Shanghai crawler\<close>

text \<open>
  \<open>normalize_item(item)\<close>: a copy of the item in which each of \<open>aiTag\<close>, \<open>sectorName\<close> and
  \<open>zoneName\<close> is replaced: a list by its elements' texts joined with \<open>|\<close>, \<open>None\<close> (also a
  missing key) by the empty string, anything else by its text.
\<close>

definition normalize_field :: "(json \<Rightarrow> pystr) \<Rightarrow> pystr \<Rightarrow> pydict \<Rightarrow> pydict" where
  "normalize_field repr k out =
     (case dict_get out k of
        JList v \<Rightarrow> dict_set out k (JStr (py_join (u ''|'') (map (py_str repr) v)))
      | JNull \<Rightarrow> dict_set out k (JStr [])
      | v \<Rightarrow> dict_set out k (JStr (py_str repr v)))"

definition normalize_item :: "(json \<Rightarrow> pystr) \<Rightarrow> pydict \<Rightarrow> pydict" where
  "normalize_item repr item =
     normalize_field repr (u ''zoneName'')
       (normalize_field repr (u ''sectorName'') (normalize_field repr (u ''aiTag'') item))"

section \<open>The classifier\<close>

subsection \<open>Floats\<close>

text \<open>\<open>a < b\<close> on floats: false whenever a NaN is compared.\<close>

fun fl_less :: "pyfloat \<Rightarrow> pyfloat \<Rightarrow> bool" where
  "fl_less (Fin a) (Fin b) = (a < b)"
| "fl_less (Fin a) PosInf = True"
| "fl_less NegInf (Fin b) = True"
| "fl_less NegInf PosInf = True"
| "fl_less a b = False"

text \<open>
  \<open>min(a, b)\<close> and \<open>max(a, b)\<close> of two arguments keep the first unless the second is
  strictly smaller, respectively strictly larger.
\<close>

definition py_min :: "pyfloat \<Rightarrow> pyfloat \<Rightarrow> pyfloat" where
  "py_min a b = (if fl_less b a then b else a)"

definition py_max :: "pyfloat \<Rightarrow> pyfloat \<Rightarrow> pyfloat" where
  "py_max a b = (if fl_less a b then b else a)"

text \<open>
  \<open>float(v)\<close>, with \<open>None\<close> where it raises. The rounding of an \<open>int\<close> (which raises
  OverflowError for a large one) and the parsing of a \<open>str\<close> (which raises ValueError) are
  the functions \<open>of_int_f\<close> and \<open>of_str_f\<close>.
\<close>

fun py_float :: "(int \<Rightarrow> pyfloat option) \<Rightarrow> (pystr \<Rightarrow> pyfloat option) \<Rightarrow> json \<Rightarrow>
    pyfloat option" where
  "py_float of_int_f of_str_f JNull = None"
| "py_float of_int_f of_str_f (JBool b) = Some (Fin (if b then 1 else 0))"
| "py_float of_int_f of_str_f (JInt n) = of_int_f n"
| "py_float of_int_f of_str_f (JFloat f) = Some f"
| "py_float of_int_f of_str_f (JStr s) = of_str_f s"
| "py_float of_int_f of_str_f (JList xs) = None"
| "py_float of_int_f of_str_f (JDict d) = None"

subsection \<open>Labels\<close>

text \<open>
  \<open>TARGET_CATEGORIES\<close>, the ten labels, as code points; the last one is the label for what
  cannot be classified.
\<close>

definition fallback_category :: pystr where
  "fallback_category = [0x5176, 0x4ED6, 0xFF08, 0x4E0D, 0x53EF, 0x5206, 0x7C7B, 0x7684, 0xFF09]"

definition TARGET_CATEGORIES :: "pystr list" where
  "TARGET_CATEGORIES =
     [[0x653F, 0x52A1, 0x2F, 0x516C, 0x5171, 0x670D, 0x52A1],
      [0x91D1, 0x878D, 0x2F, 0x5F81, 0x4FE1],
      [0x4EA4, 0x901A, 0x2F, 0x51FA, 0x884C],
      [0x5DE5, 0x4E1A, 0x2F, 0x5236, 0x9020, 0x2F, 0x80FD, 0x6E90],
      [0x533B, 0x7597, 0x2F, 0x5065, 0x5EB7],
      [0x96F6, 0x552E, 0x2F, 0x6D88, 0x8D39],
      [0x4F4D, 0x7F6E, 0x2F, 0x5730, 0x56FE, 0x2F, 0x65F6, 0x7A7A],
      [0x4E92, 0x8054, 0x7F51, 0x2F, 0x5185, 0x5BB9, 0x2F, 0x5A92, 0x4F53],
      [0x73AF, 0x5883, 0x2F, 0x6C14, 0x8C61],
      [0x5176, 0x4ED6, 0xFF08, 0x4E0D, 0x53EF, 0x5206, 0x7C7B, 0x7684, 0xFF09]]"

definition normalize_category :: "pystr \<Rightarrow> pystr" where
  "normalize_category cat =
     (let cat' = py_strip cat
      in if cat' \<in> set TARGET_CATEGORIES then cat' else fallback_category)"

subsection \<open>One call\<close>

text \<open>
  \<open>safe_get_json(content)\<close>: the decoded dict, \<open>None\<close> when \<open>json.loads\<close> raises or gives
  something else. \<open>json.loads\<close> is the function \<open>loads\<close>, \<open>None\<close> where it raises.
\<close>

definition safe_get_json :: "(pystr \<Rightarrow> json option) \<Rightarrow> pystr \<Rightarrow> pydict option" where
  "safe_get_json loads content =
     (case loads content of Some (JDict data) \<Rightarrow> Some data | _ \<Rightarrow> None)"

text \<open>
  What one request to the service gives: an exception (with its message) from the client
  or from reading \<open>resp.choices[0].message.content\<close>, or that content, which may be \<open>None\<close>.
\<close>

datatype api_outcome = Raises pystr | Content "pystr option"

text \<open>The exceptions caught by the \<open>except Exception\<close> of the retry loop.\<close>

datatype cls_exn = ApiError pystr | EmptyContent | InvalidJson pystr

fun exn_str :: "cls_exn \<Rightarrow> pystr" where
  "exn_str (ApiError m) = m"
| "exn_str EmptyContent = u ''empty content''"
| "exn_str (InvalidJson content) = u ''invalid json: '' @ take 160 content"

definition retry_keywords :: "pystr list" where
  "retry_keywords =
     [u ''429'', u ''rate limit'', u ''too many requests'', u ''timeout'', u ''timed out'',
      u ''temporarily'', u ''temporary'', u ''connection'', u ''network'', u ''server'',
      u ''502'', u ''503'', u ''504'', u ''empty content'', u ''invalid json'']"

text \<open>\<open>is_retryable_error(err)\<close>; \<open>lower\<close> is \<open>str.lower\<close>.\<close>

definition is_retryable_error :: "(pystr \<Rightarrow> pystr) \<Rightarrow> cls_exn \<Rightarrow> bool" where
  "is_retryable_error lower err =
     list_ex (\<lambda>k. py_contains k (lower (exn_str err))) retry_keywords"

record cls_result =
  mapped_category :: pystr
  confidence :: pyfloat
  reason :: pystr
  raw_json :: pystr
  error :: pystr

text \<open>
  The functions of Python that the models of the classifier and of the crawlers take as
  given: \<open>repr\<close>, \<open>str.lower\<close>, \<open>json.loads\<close>, \<open>float\<close> of an int and of a string,
  \<open>int\<close> of a string, and \<open>float.__repr__\<close>; \<open>None\<close> is where the function raises.
\<close>

record py_env =
  env_repr :: "json \<Rightarrow> pystr"
  env_lower :: "pystr \<Rightarrow> pystr"
  env_loads :: "pystr \<Rightarrow> json option"
  env_float_of_int :: "int \<Rightarrow> pyfloat option"
  env_float_of_str :: "pystr \<Rightarrow> pyfloat option"
  env_int_of_str :: "pystr \<Rightarrow> int option"
  env_float_repr :: "real \<Rightarrow> pystr"

text \<open>
  The confidence of a decoded answer: \<open>float(data.get("confidence", 0.0))\<close>, \<open>0.0\<close> when
  that raises, then \<open>max(0.0, min(1.0, confidence))\<close>.
\<close>

definition confidence_of :: "py_env \<Rightarrow> pydict \<Rightarrow> pyfloat" where
  "confidence_of env data =
     (let c = (case py_float (env_float_of_int env) (env_float_of_str env)
                      (dict_get_default data (u ''confidence'') (JFloat (Fin 0))) of
                 Some c \<Rightarrow> c | None \<Rightarrow> Fin 0)
      in py_max (Fin 0) (py_min (Fin 1) c))"

text \<open>The body of the \<open>try\<close>: the result that is returned, or the exception that is caught.\<close>

definition classify_response :: "py_env \<Rightarrow> api_outcome \<Rightarrow> cls_exn + cls_result" where
  "classify_response env resp =
     (case resp of
        Raises m \<Rightarrow> Inl (ApiError m)
      | Content c \<Rightarrow>
          (let content = py_strip (case c of None \<Rightarrow> [] | Some s \<Rightarrow> s)
           in if content = [] then Inl EmptyContent
              else case safe_get_json (env_loads env) content of
                None \<Rightarrow> Inl (InvalidJson content)
              | Some data \<Rightarrow>
                  if data = [] then Inl (InvalidJson content)
                  else Inr \<lparr>mapped_category = normalize_category
                               (py_str (env_repr env)
                                  (dict_get_default data (u ''mapped_category'') (JStr []))),
                            confidence = confidence_of env data,
                            reason = take 60 (py_str (env_repr env)
                                  (dict_get_default data (u ''reason'') (JStr []))),
                            raw_json = content,
                            error = []\<rparr>))"

text \<open>
  The retry loop over \<open>range(1, max_retries + 1)\<close>: a result returns at once; an exception
  is remembered, and the loop goes on only before the last attempt and for a retryable
  exception. \<open>client attempt\<close> is what the service gives at that attempt. The loop ends
  with the result (\<open>Inr\<close>) or with the last exception, if any (\<open>Inl\<close>).
\<close>

fun attempts_loop :: "py_env \<Rightarrow> (int \<Rightarrow> api_outcome) \<Rightarrow> int \<Rightarrow> int list \<Rightarrow>
    cls_exn option \<Rightarrow> cls_exn option + cls_result" where
  "attempts_loop env client max_retries [] last_err = Inl last_err"
| "attempts_loop env client max_retries (attempt # rest) last_err =
     (case classify_response env (client attempt) of
        Inr r \<Rightarrow> Inr r
      | Inl e \<Rightarrow>
          if attempt < max_retries \<and> is_retryable_error (env_lower env) e
          then attempts_loop env client max_retries rest (Some e)
          else Inl (Some e))"

text \<open>
  \<open>call_deepseek_json\<close>: the result of the loop, or the result built after it, with the
  fallback label, confidence \<open>0.0\<close> and the text of the last exception (\<open>str(None)\<close> when the
  loop made no attempt). The prefix of the reason is the Chinese text for
  ``call or parsing failed''.
\<close>

definition call_deepseek_json :: "py_env \<Rightarrow> (int \<Rightarrow> api_outcome) \<Rightarrow> int \<Rightarrow> cls_result" where
  "call_deepseek_json env client max_retries =
     (case attempts_loop env client max_retries [1..max_retries] None of
        Inr r \<Rightarrow> r
      | Inl last_err \<Rightarrow>
          \<lparr>mapped_category = fallback_category,
           confidence = Fin 0,
           reason = [0x8C03, 0x7528, 0x2F, 0x89E3, 0x6790, 0x5931, 0x8D25, 0xFF1A]
                      @ take 40 (case last_err of None \<Rightarrow> u ''None'' | Some e \<Rightarrow> exn_str e),
           raw_json = [],
           error = (case last_err of None \<Rightarrow> u ''unknown'' | Some e \<Rightarrow> take 200 (exn_str e))\<rparr>)"

section \<open>Flattening a record\<close>

subsection \<open>\<open>json.dumps(v, ensure_ascii=False)\<close>\<close>

text \<open>
  A string literal of \<open>json.dumps\<close> without ASCII escaping: the quote, the backslash and
  the control characters below U+0020 are escaped (\<open>\b \t \n \f \r\<close> by their short
  forms, the others as \<open>\u00XX\<close> with lower-case hex digits), every other code point is
  written as it is. The backslash is code point 92, the quote 34.
\<close>

definition hex_digit :: "nat \<Rightarrow> nat" where
  "hex_digit d = (if d < 10 then 48 + d else 87 + d)"

definition escape_char :: "nat \<Rightarrow> pystr" where
  "escape_char c =
     (if c = 34 then [92, 34]
      else if c = 92 then [92, 92]
      else if c = 8 then [92, 98]
      else if c = 12 then [92, 102]
      else if c = 10 then [92, 110]
      else if c = 13 then [92, 114]
      else if c = 9 then [92, 116]
      else if c < 32 then [92, 117, 48, 48, hex_digit (c div 16), hex_digit (c mod 16)]
      else [c])"

definition dumps_str :: "pystr \<Rightarrow> pystr" where
  "dumps_str s = [34] @ concat (map escape_char s) @ [34]"

text \<open>
  The text of a float: \<open>NaN\<close>, \<open>Infinity\<close> and \<open>-Infinity\<close> for the special values, and
  \<open>float.__repr__\<close> for a finite one, which the model takes as the function \<open>float_repr\<close>.
\<close>

fun dumps_float :: "(real \<Rightarrow> pystr) \<Rightarrow> pyfloat \<Rightarrow> pystr" where
  "dumps_float float_repr (Fin r) = float_repr r"
| "dumps_float float_repr PosInf = u ''Infinity''"
| "dumps_float float_repr NegInf = u ''-Infinity''"
| "dumps_float float_repr NaN = u ''NaN''"

text \<open>
  The serialisation with the default separators \<open>", "\<close> and \<open>": "\<close>. The items of a dict
  are written in the dict's own order: \<open>sort_keys\<close> is not set.
\<close>

fun dumps :: "(real \<Rightarrow> pystr) \<Rightarrow> json \<Rightarrow> pystr"
  and dumps_elems :: "(real \<Rightarrow> pystr) \<Rightarrow> json list \<Rightarrow> pystr"
  and dumps_items :: "(real \<Rightarrow> pystr) \<Rightarrow> (pystr \<times> json) list \<Rightarrow> pystr" where
  "dumps fr JNull = u ''null''"
| "dumps fr (JBool b) = (if b then u ''true'' else u ''false'')"
| "dumps fr (JInt n) = dec_int n"
| "dumps fr (JFloat f) = dumps_float fr f"
| "dumps fr (JStr s) = dumps_str s"
| "dumps fr (JList xs) = u ''['' @ dumps_elems fr xs @ u '']''"
| "dumps fr (JDict d) = u ''{'' @ dumps_items fr d @ u ''}''"
| "dumps_elems fr [] = []"
| "dumps_elems fr [x] = dumps fr x"
| "dumps_elems fr (x # y # ys) = dumps fr x @ u '', '' @ dumps_elems fr (y # ys)"
| "dumps_items fr [] = []"
| "dumps_items fr [(k, v)] = dumps_str k @ u '': '' @ dumps fr v"
| "dumps_items fr ((k, v) # kv # d) =
     dumps_str k @ u '': '' @ dumps fr v @ u '', '' @ dumps_items fr (kv # d)"

subsection \<open>\<open>flatten_record\<close>\<close>

text \<open>
  \<open>flatten_record(rec)\<close>, the same function in the two Hefei scripts: a value that is a
  dict or a list is replaced by its serialisation, every other value is kept. The result is
  built by assignments \<open>out[k] = ...\<close> in the order of \<open>rec.items()\<close>.
\<close>

fun flatten_value :: "(real \<Rightarrow> pystr) \<Rightarrow> json \<Rightarrow> json" where
  "flatten_value fr (JDict d) = JStr (dumps fr (JDict d))"
| "flatten_value fr (JList xs) = JStr (dumps fr (JList xs))"
| "flatten_value fr v = v"

definition flatten_record :: "(real \<Rightarrow> pystr) \<Rightarrow> pydict \<Rightarrow> pydict" where
  "flatten_record fr rec = fold (\<lambda>(k, v) out. dict_set out k (flatten_value fr v)) rec []"

text \<open>
  Two decoded values are equal as mappings when they differ at most in the order of the
  items of their dicts, at any depth. \<open>canonical\<close> sorts the items of every dict by key, so
  that (for dicts without repeated keys, as Python's are) two values are equal as mappings
  exactly when their canonical forms are the same.
\<close>

fun canonical :: "json \<Rightarrow> json" where
  "canonical (JList xs) = JList (map canonical xs)"
| "canonical (JDict d) = JDict (sort_key fst (map (\<lambda>(k, v). (k, canonical v)) d))"
| "canonical v = v"

definition equal_as_mappings :: "pydict \<Rightarrow> pydict \<Rightarrow> bool" where
  "equal_as_mappings r1 r2 \<longleftrightarrow> canonical (JDict r1) = canonical (JDict r2)"

section \<open>Checkpoint files\<close>

text \<open>The exceptions of the crawlers, \<open>RuntimeError\<close> split by the place that raises it.\<close>

datatype block_reason = NonJsonHtml | NonJson | JsonParseFailed | ApiSuccessFalse

datatype py_error =
    OSError
  | ConnectionError
  | JSONDecodeError
  | AttributeError
  | TypeError
  | UnboundLocalError
  | HttpStatus int
  | LikelyBlocked block_reason
  | UnexpectedJson
  | NonJsonResponse
  | UnexpectedJsonType
  | ApiNotSuccess
  | RecordsNotAList
  | NoDataFetched
  | OutputExists

text \<open>
  What a path holds when a script opens it for reading: nothing, something that cannot be
  opened or read (\<open>open\<close> or the read raises), or a text.
\<close>

datatype file_state = Absent | Unreadable | Holds pystr

text \<open>
  \<open>int(v)\<close>, with \<open>None\<close> where it raises: a float is truncated towards zero, and the
  parsing of a string is the function \<open>env_int_of_str\<close>.
\<close>

fun py_int :: "py_env \<Rightarrow> json \<Rightarrow> int option" where
  "py_int env JNull = None"
| "py_int env (JBool b) = Some (if b then 1 else 0)"
| "py_int env (JInt n) = Some n"
| "py_int env (JFloat (Fin r)) = Some (if 0 \<le> r then \<lfloor>r\<rfloor> else \<lceil>r\<rceil>)"
| "py_int env (JFloat f) = None"
| "py_int env (JStr s) = env_int_of_str env s"
| "py_int env (JList xs) = None"
| "py_int env (JDict d) = None"

subsection \<open>Loading\<close>

text \<open>
  \<open>load_progress(path)\<close> of the Hefei centre crawler: page 1 when the file does not exist,
  and page 1 for every exception while opening, reading, decoding and converting
  (\<open>except Exception: return 1\<close>); otherwise \<open>max(1, int(obj.get("next_page_no", 1)))\<close>.
  Decoded JSON that is not a dict has no \<open>get\<close>, which raises inside the \<open>try\<close>.
\<close>

definition load_progress :: "py_env \<Rightarrow> file_state \<Rightarrow> int" where
  "load_progress env file =
     (case file of
        Absent \<Rightarrow> 1
      | Unreadable \<Rightarrow> 1
      | Holds t \<Rightarrow>
          (case env_loads env t of
             None \<Rightarrow> 1
           | Some (JDict obj) \<Rightarrow>
               (case py_int env (dict_get_default obj (u ''next_page_no'') (JInt 1)) of
                  None \<Rightarrow> 1
                | Some page_no \<Rightarrow> max 1 page_no)
           | Some _ \<Rightarrow> 1))"

text \<open>
  \<open>load_checkpoint()\<close> of the Hubei crawler: the default checkpoint when the file does not
  exist; otherwise whatever \<open>json.load\<close> gives, with no handler around \<open>open\<close> and
  \<open>json.load\<close>.
\<close>

definition default_checkpoint :: json where
  "default_checkpoint = JDict [(u ''page_index'', JInt 1), (u ''seen_keys'', JList [])]"

definition load_checkpoint :: "py_env \<Rightarrow> file_state \<Rightarrow> py_error + json" where
  "load_checkpoint env file =
     (case file of
        Absent \<Rightarrow> Inr default_checkpoint
      | Unreadable \<Rightarrow> Inl OSError
      | Holds t \<Rightarrow> (case env_loads env t of None \<Rightarrow> Inl JSONDecodeError | Some ck \<Rightarrow> Inr ck))"

subsection \<open>Saving\<close>

text \<open>
  The file system as far as saving goes: a map from paths to what they hold, changed by
  opening a file for writing (which creates or empties it), by writing a chunk at its end,
  and by \<open>os.replace\<close>, which moves a file over another in one step.
\<close>

type_synonym fs = "pystr \<Rightarrow> file_state"

datatype fs_op = OpenW pystr | Write pystr pystr | Replace pystr pystr

fun apply_op :: "fs_op \<Rightarrow> fs \<Rightarrow> fs" where
  "apply_op (OpenW p) f = f(p := Holds [])"
| "apply_op (Write p s) f = (case f p of Holds t \<Rightarrow> f(p := Holds (t @ s)) | _ \<Rightarrow> f)"
| "apply_op (Replace src dst) f = f(dst := f src, src := Absent)"

text \<open>
  The states the file system goes through while a list of operations runs: one state per
  prefix of the list. A process killed during the save leaves one of them behind.
\<close>

definition fs_states :: "fs_op list \<Rightarrow> fs \<Rightarrow> fs list" where
  "fs_states ops f = map (\<lambda>n. fold apply_op (take n ops) f) [0..<Suc (length ops)]"

text \<open>
  \<open>save_progress(path, next_page_no)\<close> of the Hefei centre crawler: the text is written to
  \<open>path + ".tmp"\<close>, which then replaces \<open>path\<close>. \<open>json.dump\<close> writes the text in chunks;
  \<open>chunks\<close> is that list of chunks.
\<close>

definition save_progress_ops :: "pystr \<Rightarrow> pystr list \<Rightarrow> fs_op list" where
  "save_progress_ops path chunks =
     (let tmp = path @ u ''.tmp''
      in OpenW tmp # map (Write tmp) chunks @ [Replace tmp path])"

text \<open>
  The text that \<open>json.dump(..., indent=2)\<close> writes for the progress object, with the
  clock's \<open>int(time.time())\<close> as \<open>ts\<close>; the quote is code point 34, the line feed 10.
\<close>

definition progress_text :: "int \<Rightarrow> int \<Rightarrow> pystr" where
  "progress_text next_page_no ts =
     [123, 10, 32, 32, 34] @ u ''next_page_no'' @ [34, 58, 32] @ dec_int next_page_no
     @ [44, 10, 32, 32, 34] @ u ''ts'' @ [34, 58, 32] @ dec_int ts @ [10, 125]"

text \<open>
  \<open>save_checkpoint(page_index, seen_keys)\<close> of the Hubei crawler: the checkpoint file itself
  is opened for writing and the text is written into it.
\<close>

definition save_checkpoint_ops :: "pystr \<Rightarrow> pystr list \<Rightarrow> fs_op list" where
  "save_checkpoint_ops path chunks = OpenW path # map (Write path) chunks"

section \<open>Fetching and paging\<close>

text \<open>
  An HTTP response as the scripts read it: the status code, the \<open>content-type\<close> header (if
  any), the body text, and what \<open>resp.json()\<close> gives (\<open>None\<close> when it raises).
\<close>

record response =
  resp_status :: int
  resp_ctype :: "pystr option"
  resp_text :: pystr
  resp_json :: "json option"

text \<open>
  The remote endpoint: what the request number \<open>n\<close> of a crawl, asking for page \<open>p\<close> with
  the crawl's page size, results in: an exception of \<open>session.get\<close> or a response.
\<close>

type_synonym network = "nat \<Rightarrow> int \<Rightarrow> py_error + response"

text \<open>The dict entries of a list of records, in order (\<open>isinstance(rec, dict)\<close>).\<close>

fun dict_rows :: "json list \<Rightarrow> pydict list" where
  "dict_rows [] = []"
| "dict_rows (JDict d # xs) = d # dict_rows xs"
| "dict_rows (x # xs) = dict_rows xs"

subsection \<open>The Hefei centre crawler\<close>

text \<open>
  \<open>is_likely_blocked(resp)\<close>: the reason when the response looks blocked, \<open>None\<close> for
  \<open>(False, "")\<close>.
\<close>

definition is_likely_blocked :: "py_env \<Rightarrow> response \<Rightarrow> block_reason option" where
  "is_likely_blocked env resp =
     (let ct = env_lower env (case resp_ctype resp of None \<Rightarrow> [] | Some c \<Rightarrow> c);
          text_head = env_lower env (take 300 (resp_text resp))
      in if \<not> py_contains (u ''application/json'') ct then
           (if py_contains (u ''<html'') text_head \<or> py_contains (u ''<!doctype html'') text_head
            then Some NonJsonHtml else Some NonJson)
         else case resp_json resp of
           None \<Rightarrow> Some JsonParseFailed
         | Some (JDict data) \<Rightarrow>
             if dict_get data (u ''success'') = JBool False then Some ApiSuccessFalse else None
         | Some _ \<Rightarrow> None)"

text \<open>
  \<open>fetch_page\<close>: the decoded body, or the exception: of the request itself, for a status
  other than 200, for a response that looks blocked, and for a body that is not a dict with
  \<open>success\<close> being \<open>True\<close>.
\<close>

definition hc_fetch_page :: "py_env \<Rightarrow> py_error + response \<Rightarrow> py_error + pydict" where
  "hc_fetch_page env r =
     (case r of
        Inl e \<Rightarrow> Inl e
      | Inr resp \<Rightarrow>
          if resp_status resp \<noteq> 200 then Inl (HttpStatus (resp_status resp))
          else case is_likely_blocked env resp of
            Some why \<Rightarrow> Inl (LikelyBlocked why)
          | None \<Rightarrow>
              (case resp_json resp of
                 None \<Rightarrow> Inl JSONDecodeError
               | Some (JDict data) \<Rightarrow>
                   if dict_get data (u ''success'') = JBool True then Inr data
                   else Inl UnexpectedJson
               | Some _ \<Rightarrow> Inl UnexpectedJson))"

text \<open>
  The application-level retry of \<open>iter_records\<close>: up to \<open>k\<close> attempts (the source makes
  three), the first success ends them, and after the last failure its exception is raised.
  The result comes with the number of the next request. With no attempt at all nothing
  would be bound to \<open>data\<close>.
\<close>

fun fetch_retry :: "py_env \<Rightarrow> network \<Rightarrow> int \<Rightarrow> nat \<Rightarrow> nat \<Rightarrow> (py_error + pydict) \<times> nat" where
  "fetch_retry env net page_no n 0 = (Inl UnboundLocalError, n)"
| "fetch_retry env net page_no n (Suc k) =
     (case hc_fetch_page env (net n page_no) of
        Inr data \<Rightarrow> (Inr data, Suc n)
      | Inl e \<Rightarrow> if k = 0 then (Inl e, Suc n) else fetch_retry env net page_no (Suc n) k)"

text \<open>
  What the loop body does with the decoded body of a page. \<open>PageError\<close>: an exception
  (\<open>result\<close> true but without \<open>get\<close>; \<open>records\<close> true but not iterable). \<open>PageStop\<close>: the
  second empty page in a row, the generator returns without saving. \<open>PageDone\<close>: the rows
  to yield (none for an empty page, and none when the true \<open>records\<close> is a string or a
  dict, whose elements are no dicts), the new count of empty pages, and whether the total
  page count says to return after saving.
\<close>

datatype page_result = PageError py_error | PageStop | PageDone "pydict list" nat bool

fun rows_of_records :: "py_env \<Rightarrow> json \<Rightarrow> py_error + pydict list" where
  "rows_of_records env (JList xs) = Inr (map (flatten_record (env_float_repr env)) (dict_rows xs))"
| "rows_of_records env (JStr s) = Inr []"
| "rows_of_records env (JDict d) = Inr []"
| "rows_of_records env v = Inl TypeError"

definition pages_reached :: "py_env \<Rightarrow> json \<Rightarrow> int \<Rightarrow> bool" where
  "pages_reached env pages page_no =
     (pages \<noteq> JNull \<and>
      (case py_int env pages of None \<Rightarrow> False | Some n \<Rightarrow> n > 0 \<and> page_no \<ge> n))"

definition process_page :: "py_env \<Rightarrow> pydict \<Rightarrow> int \<Rightarrow> nat \<Rightarrow> page_result" where
  "process_page env data page_no seen_empty =
     (case py_or (dict_get data (u ''result'')) (JDict []) of
        JDict result \<Rightarrow>
          (let records = py_or (dict_get result (u ''records'')) (JList []);
               pages = dict_get result (u ''pages'')
           in if \<not> truthy records then
                (if seen_empty + 1 \<ge> 2 then PageStop
                 else PageDone [] (seen_empty + 1) (pages_reached env pages page_no))
              else case rows_of_records env records of
                Inl e \<Rightarrow> PageError e
              | Inr rows \<Rightarrow> PageDone rows 0 (pages_reached env pages page_no))
      | _ \<Rightarrow> PageError AttributeError)"

text \<open>
  What can be observed of the generator: each request, each row it yields (the consumer
  writes the row to the output before the generator runs on), and each
  \<open>save_progress(PROGRESS_PATH, n)\<close>.
\<close>

datatype event = Fetch int | Yield pydict | Save int

text \<open>
  \<open>iter_records\<close>: the \<open>while True\<close> loop, one unit of fuel per round. The result is
  \<open>None\<close> when the fuel runs out, otherwise the events in order and how the generator
  ended: by returning (\<open>None\<close>) or with an exception.
\<close>

fun iter_loop :: "nat \<Rightarrow> py_env \<Rightarrow> network \<Rightarrow> int option \<Rightarrow> int \<Rightarrow> int \<Rightarrow> nat \<Rightarrow> nat \<Rightarrow>
    (event list \<times> py_error option) option" where
  "iter_loop 0 env net max_pages start_page page_no seen_empty n = None"
| "iter_loop (Suc fuel) env net max_pages start_page page_no seen_empty n =
     (if (case max_pages of None \<Rightarrow> False | Some m \<Rightarrow> page_no - start_page + 1 > m)
      then Some ([], None)
      else case fetch_retry env net page_no n 3 of
        (Inl e, n') \<Rightarrow> Some (replicate (n' - n) (Fetch page_no), Some e)
      | (Inr data, n') \<Rightarrow>
          (case process_page env data page_no seen_empty of
             PageError e \<Rightarrow> Some (replicate (n' - n) (Fetch page_no), Some e)
           | PageStop \<Rightarrow> Some (replicate (n' - n) (Fetch page_no), None)
           | PageDone rows seen_empty' stop \<Rightarrow>
               (let evs = replicate (n' - n) (Fetch page_no) @ map Yield rows
                          @ [Save (page_no + 1)]
                in if stop then Some (evs, None)
                   else map_option (\<lambda>(tr, r). (evs @ tr, r))
                          (iter_loop fuel env net max_pages start_page (page_no + 1)
                             seen_empty' n'))))"

definition iter_records :: "nat \<Rightarrow> py_env \<Rightarrow> network \<Rightarrow> int \<Rightarrow> int option \<Rightarrow>
    (event list \<times> py_error option) option" where
  "iter_records fuel env net start_page max_pages =
     iter_loop fuel env net max_pages start_page start_page 0 0"

text \<open>The pages requested, the rows yielded and the last progress saved, read off the events.\<close>

fun fetched_pages :: "event list \<Rightarrow> int list" where
  "fetched_pages [] = []"
| "fetched_pages (Fetch p # evs) = p # fetched_pages evs"
| "fetched_pages (e # evs) = fetched_pages evs"

fun yielded_rows :: "event list \<Rightarrow> pydict list" where
  "yielded_rows [] = []"
| "yielded_rows (Yield r # evs) = r # yielded_rows evs"
| "yielded_rows (e # evs) = yielded_rows evs"

fun saved_progress :: "int option \<Rightarrow> event list \<Rightarrow> int option" where
  "saved_progress cur [] = cur"
| "saved_progress cur (Save n # evs) = saved_progress (Some n) evs"
| "saved_progress cur (e # evs) = saved_progress cur evs"

text \<open>
  The order in which a page is handled, as a check of a list of events: a row is yielded
  and progress is saved only for the page requested last, the progress saved for page \<open>p\<close>
  is \<open>p + 1\<close>, and after a save nothing happens before the next request.
\<close>

datatype phase = Idle | Fetched int | Saved

fun ordered :: "phase \<Rightarrow> event list \<Rightarrow> bool" where
  "ordered ph [] = True"
| "ordered ph (Fetch p # evs) = ordered (Fetched p) evs"
| "ordered (Fetched p) (Yield r # evs) = ordered (Fetched p) evs"
| "ordered (Fetched p) (Save q # evs) = (q = p + 1 \<and> ordered Saved evs)"
| "ordered ph (e # evs) = False"

subsection \<open>Writing the table\<close>

text \<open>
  \<open>csv.DictWriter(f, fieldnames, extrasaction="ignore")\<close> writes for a row the values
  under the field names, the empty string for a field name the row lacks, and ignores the
  keys of the row that are no field names.
\<close>

definition dict_to_list :: "pystr list \<Rightarrow> pydict \<Rightarrow> json list" where
  "dict_to_list fieldnames row = map (\<lambda>f. dict_get_default row f (JStr [])) fieldnames"

text \<open>
  The Hefei centre crawler writes while it crawls: the field names are the sorted keys of
  the first row, fixed for all later rows; the header line is written in mode \<open>w\<close> only.
\<close>

definition stream_table :: "bool \<Rightarrow> pydict list \<Rightarrow> pystr list option \<times> json list list" where
  "stream_table mode_w rows =
     (case rows of
        [] \<Rightarrow> (None, [])
      | row # rest \<Rightarrow>
          (let fieldnames = sort (map fst row)
           in (if mode_w then Some fieldnames else None, map (dict_to_list fieldnames) rows)))"

text \<open>
  \<open>scrape_all\<close> of the Hefei centre crawler: where it starts, what it has written (header
  line and rows), the last progress saved, and how it ended: with the number of rows or with
  an exception (of the generator, or because nothing was fetched, or because the output
  exists and \<open>resume\<close> is off). \<open>None\<close> when the fuel runs out.
\<close>

record hc_run =
  run_header :: "pystr list option"
  run_body :: "json list list"
  run_progress :: "int option"
  run_result :: "py_error + nat"

definition hc_scrape_all :: "nat \<Rightarrow> py_env \<Rightarrow> network \<Rightarrow> file_state \<Rightarrow> bool \<Rightarrow> bool \<Rightarrow>
    int option \<Rightarrow> hc_run option" where
  "hc_scrape_all fuel env net progress_file file_exists resume max_pages =
     (let start_page = (if resume then load_progress env progress_file else 1)
      in if file_exists \<and> \<not> resume
         then Some \<lparr>run_header = None, run_body = [], run_progress = None,
                     run_result = Inl OutputExists\<rparr>
         else case iter_records fuel env net start_page max_pages of
           None \<Rightarrow> None
         | Some (evs, err) \<Rightarrow>
             (let rows = yielded_rows evs;
                  (header, body) = stream_table (\<not> (resume \<and> file_exists)) rows
              in Some \<lparr>run_header = header, run_body = body,
                        run_progress = saved_progress None evs,
                        run_result = (case err of
                            Some e \<Rightarrow> Inl e
                          | None \<Rightarrow> if rows = [] then Inl NoDataFetched
                                     else Inr (length rows))\<rparr>))"

subsection \<open>The Hefei data-circulation crawler\<close>

definition ensure_json_response :: "response \<Rightarrow> py_error + pydict" where
  "ensure_json_response resp =
     (let ct = (case resp_ctype resp of None \<Rightarrow> [] | Some c \<Rightarrow> c)
      in if resp_status resp \<noteq> 200 then Inl (HttpStatus (resp_status resp))
         else if \<not> py_contains (u ''application/json'') ct then Inl NonJsonResponse
         else case resp_json resp of
           None \<Rightarrow> Inl JSONDecodeError
         | Some (JDict data) \<Rightarrow>
             if dict_get data (u ''success'') = JBool True then Inr data else Inl ApiNotSuccess
         | Some _ \<Rightarrow> Inl UnexpectedJsonType)"

text \<open>\<open>fetch_page\<close>: the records of the page, which must be a list, and the \<open>result\<close> object.\<close>

definition hf_fetch_page :: "py_error + response \<Rightarrow> py_error + json list \<times> pydict" where
  "hf_fetch_page r =
     (case r of
        Inl e \<Rightarrow> Inl e
      | Inr resp \<Rightarrow>
          (case ensure_json_response resp of
             Inl e \<Rightarrow> Inl e
           | Inr data \<Rightarrow>
               (case py_or (dict_get data (u ''result'')) (JDict []) of
                  JDict result \<Rightarrow>
                    (case py_or (dict_get result (u ''records'')) (JList []) of
                       JList records \<Rightarrow> Inr (records, result)
                     | _ \<Rightarrow> Inl RecordsNotAList)
                | _ \<Rightarrow> Inl AttributeError)))"

text \<open>
  The paging fields: the first of the candidate keys whose value is an \<open>int\<close> (a \<open>bool\<close>
  is one) is taken, once, while none is known yet.
\<close>

fun int_value :: "json \<Rightarrow> int option" where
  "int_value (JInt n) = Some n"
| "int_value (JBool b) = Some (if b then 1 else 0)"
| "int_value v = None"

fun meta_int :: "pydict \<Rightarrow> pystr list \<Rightarrow> int option \<Rightarrow> int option" where
  "meta_int result_meta [] cur = cur"
| "meta_int result_meta (key # keys) cur =
     meta_int result_meta keys
       (if cur = None \<and> int_value (dict_get result_meta key) \<noteq> None
        then int_value (dict_get result_meta key) else cur)"

text \<open>
  The \<open>while True\<close> loop of \<open>scrape_all\<close>, one unit of fuel per round: the pages requested
  and the rows collected, or the exception of a request, which ends the crawl.
\<close>

fun hf_loop :: "nat \<Rightarrow> py_env \<Rightarrow> network \<Rightarrow> int option \<Rightarrow> int \<Rightarrow> int \<Rightarrow> int option \<Rightarrow>
    int option \<Rightarrow> pydict list \<Rightarrow> nat \<Rightarrow> (int list \<times> (py_error + pydict list)) option" where
  "hf_loop 0 env net max_pages start_page page_no total_pages total_items all_rows n = None"
| "hf_loop (Suc fuel) env net max_pages start_page page_no total_pages total_items all_rows n =
     (if (case max_pages of None \<Rightarrow> False | Some m \<Rightarrow> page_no - start_page + 1 > m)
      then Some ([], Inr all_rows)
      else if (case total_pages of None \<Rightarrow> False | Some tp \<Rightarrow> page_no > tp)
      then Some ([], Inr all_rows)
      else case hf_fetch_page (net n page_no) of
        Inl e \<Rightarrow> Some ([page_no], Inl e)
      | Inr (records, result_meta) \<Rightarrow>
          (let total_pages' = meta_int result_meta
                 [u ''pages'', u ''totalPages'', u ''pageCount''] total_pages;
               total_items' = meta_int result_meta
                 [u ''total'', u ''totalCount'', u ''count''] total_items
           in if records = [] then Some ([page_no], Inr all_rows)
              else
                (let all_rows' = all_rows
                       @ map (flatten_record (env_float_repr env)) (dict_rows records)
                 in if (case total_items' of None \<Rightarrow> False
                        | Some ti \<Rightarrow> int (length all_rows') \<ge> ti)
                    then Some ([page_no], Inr all_rows')
                    else map_option (\<lambda>(ps, r). (page_no # ps, r))
                           (hf_loop fuel env net max_pages start_page (page_no + 1)
                              total_pages' total_items' all_rows' (Suc n)))))"

text \<open>
  The table written at the end: the field names are the sorted set of all keys of all
  rows.
\<close>

definition csv_table :: "pydict list \<Rightarrow> pystr list \<times> json list list" where
  "csv_table all_rows =
     (let fieldnames = sort (remdups (concat (map (map fst) all_rows)))
      in (fieldnames, map (dict_to_list fieldnames) all_rows))"

text \<open>
  \<open>scrape_all\<close> of the data-circulation crawler: the pages requested, and the table
  written, or the exception (of a request, or because no row was collected).
\<close>

definition hf_scrape_all :: "nat \<Rightarrow> py_env \<Rightarrow> network \<Rightarrow> int \<Rightarrow> int option \<Rightarrow>
    (int list \<times> (py_error + pystr list \<times> json list list)) option" where
  "hf_scrape_all fuel env net start_page max_pages =
     (case hf_loop fuel env net max_pages start_page start_page None None [] 0 of
        None \<Rightarrow> None
      | Some (ps, Inl e) \<Rightarrow> Some (ps, Inl e)
      | Some (ps, Inr all_rows) \<Rightarrow>
          if all_rows = [] then Some (ps, Inl NoDataFetched)
          else Some (ps, Inr (csv_table all_rows)))"

section \<open>Concrete inputs\<close>

text \<open>
  The examples below contain no float and, where a value is turned into text, no list or
  dict, and no timestamp, so \<open>repr\<close>, the time formatter and \<open>float.__repr__\<close> are
  never consulted on them; these three functions stand in for them.
\<close>

definition repr_unused :: "json \<Rightarrow> pystr" where
  "repr_unused v = []"

definition fmt_unused :: "json \<Rightarrow> pystr" where
  "fmt_unused v = []"

definition float_repr_unused :: "real \<Rightarrow> pystr" where
  "float_repr_unused r = []"

text \<open>A Guangdong file whose \<open>data.rows\<close> holds the row with id 7 twice.\<close>

definition gd_example_files :: "(pystr \<times> json option) list" where
  "gd_example_files =
     [(u ''f'', Some (JDict [(u ''data'', JDict [(u ''rows'',
          JList [JDict [(u ''id'', JInt 7)], JDict [(u ''id'', JInt 7)]])])]))]"

text \<open>Two Hubei cards with the same detail URL.\<close>

definition hb_example_card :: hb_item where
  "hb_example_card = \<lparr>title = Some (u ''t''), detail_url = Some (u ''/product/detail/1''),
     org = None, price = None, delivery = None, scenarios = None, tags = [],
     cert_img = None\<rparr>"

text \<open>A record whose \<open>aiTag\<close> is the list \<open>["A", "B", "A"]\<close>.\<close>

definition tags_example :: "json list" where
  "tags_example = [JStr (u ''A''), JStr (u ''B''), JStr (u ''A'')]"

definition sh_example_item :: pydict where
  "sh_example_item = [(u ''aiTag'', JList tags_example)]"

text \<open>
  An answer of the classification service with a label outside the enumeration, and a
  decoder that knows this one text. The conversions to float are exact on small integers.
\<close>

definition example_content :: pystr where
  \<open>example_content = u ''{"mapped_category": "nonexistent", "confidence": 7}''\<close>

definition example_loads :: "pystr \<Rightarrow> json option" where
  "example_loads s =
     (if s = example_content
      then Some (JDict [(u ''mapped_category'', JStr (u ''nonexistent'')),
                        (u ''confidence'', JInt 7)])
      else None)"

definition example_env :: py_env where
  "example_env = \<lparr>env_repr = repr_unused, env_lower = (\<lambda>s. s), env_loads = example_loads,
     env_float_of_int = (\<lambda>n. Some (Fin (real_of_int n))), env_float_of_str = (\<lambda>s. None),
     env_int_of_str = (\<lambda>s. None), env_float_repr = float_repr_unused\<rparr>"

definition client_nonexistent :: "int \<Rightarrow> api_outcome" where
  "client_nonexistent attempt = Content (Some example_content)"

definition client_empty :: "int \<Rightarrow> api_outcome" where
  "client_empty attempt = Content None"

text \<open>
  Two records that differ only in the order of the keys of a nested dict:
  \<open>{"x": {"a": 1, "b": 2}}\<close> and \<open>{"x": {"b": 2, "a": 1}}\<close>. They contain no float.
\<close>

definition nested_ab :: pydict where
  "nested_ab = [(u ''x'', JDict [(u ''a'', JInt 1), (u ''b'', JInt 2)])]"

definition nested_ba :: pydict where
  "nested_ba = [(u ''x'', JDict [(u ''b'', JInt 2), (u ''a'', JInt 1)])]"

text \<open>The record \<open>{"a": 1, "x": [1]}\<close> and the same record built in the other key order.\<close>

definition top_ax :: pydict where
  "top_ax = [(u ''a'', JInt 1), (u ''x'', JList [JInt 1])]"

definition top_xa :: pydict where
  "top_xa = [(u ''x'', JList [JInt 1]), (u ''a'', JInt 1)]"

text \<open>Two flat rows, the second with a key that the first lacks.\<close>

definition rows_a_ab :: "pydict list" where
  "rows_a_ab = [[(u ''a'', JInt 1)], [(u ''a'', JInt 2), (u ''b'', JInt 3)]]"

text \<open>
  A source that holds 25 records and serves them, for page size 10, as pages of 10, 10 and
  5 records, and empty pages after that. Every response has status 200, a JSON content
  type and \<open>success\<close> true; \<open>meta\<close> is what the \<open>result\<close> object holds besides the records.
\<close>

definition example_record :: "int \<Rightarrow> json" where
  "example_record i = JDict [(u ''id'', JInt i)]"

definition records_of_page :: "int \<Rightarrow> json list" where
  "records_of_page p =
     (if p = 1 then map example_record [1..10]
      else if p = 2 then map example_record [11..20]
      else if p = 3 then map example_record [21..25]
      else [])"

definition rows_of_page :: "int \<Rightarrow> pydict list" where
  "rows_of_page p = map (flatten_record float_repr_unused) (dict_rows (records_of_page p))"

definition page_body :: "pydict \<Rightarrow> json list \<Rightarrow> pydict" where
  "page_body meta records =
     [(u ''success'', JBool True), (u ''result'', JDict (meta @ [(u ''records'', JList records)]))]"

definition json_response :: "pydict \<Rightarrow> response" where
  "json_response body = \<lparr>resp_status = 200, resp_ctype = Some (u ''application/json''),
     resp_text = dumps float_repr_unused (JDict body), resp_json = Some (JDict body)\<rparr>"

definition source25 :: "pydict \<Rightarrow> network" where
  "source25 meta n p = Inr (json_response (page_body meta (records_of_page p)))"

text \<open>
  A response with status 200 whose body declares a failure, and a source that always
  answers with it.
\<close>

definition login_required :: response where
  "login_required = json_response
     [(u ''success'', JBool False), (u ''message'', JStr (u ''login required''))]"

definition source_login_required :: network where
  "source_login_required n p = Inr login_required"

text \<open>A file system in which every path holds the text \<open>old\<close>.\<close>

definition fs_old :: fs where
  "fs_old p = Holds (u ''old'')"

section \<open>Evaluation of string literals\<close>

lemma u_simps: "u [] = []" "u (c # cs) = of_char c # u cs"
  by (simp_all add: u_def)


section \<open>Properties of the deduplication\<close>

lemma gd_rows_inv:
  assumes "gd_rows repr fmt base its (seen, out) = (seen', out')"
    and "distinct (map (dedup_key repr) out)" and "dedup_key repr ` set out \<subseteq> seen"
  shows "distinct (map (dedup_key repr) out') \<and> dedup_key repr ` set out' \<subseteq> seen'
     \<and> (\<exists>added. out' = out @ added \<and> dedup_key repr ` set added \<inter> seen = {}
          \<and> [] \<notin> dedup_key repr ` set added \<and> seen' = seen \<union> dedup_key repr ` set added)"
  using assms
proof (induction its arbitrary: seen out)
  case Nil
  then show ?case by auto
next
  case (Cons it its)
  show ?case
  proof (cases it)
    case (JDict d)
    let ?r = "gd_norm fmt d base"
    let ?k = "dedup_key repr ?r"
    show ?thesis
    proof (cases "?k = [] \<or> ?k \<in> seen")
      case True
      with Cons.prems JDict have "gd_rows repr fmt base its (seen, out) = (seen', out')"
        by (simp add: Let_def)
      from Cons.IH[OF this Cons.prems(2,3)] show ?thesis .
    next
      case False
      with Cons.prems JDict
      have step: "gd_rows repr fmt base its (insert ?k seen, out @ [?r]) = (seen', out')"
        by (simp add: Let_def)
      have d: "distinct (map (dedup_key repr) (out @ [?r]))"
        using False Cons.prems(2,3) by auto
      have s: "dedup_key repr ` set (out @ [?r]) \<subseteq> insert ?k seen"
        using Cons.prems(3) by auto
      from Cons.IH[OF step d s] obtain added where
        a: "distinct (map (dedup_key repr) out')" "dedup_key repr ` set out' \<subseteq> seen'"
           "out' = (out @ [?r]) @ added" "dedup_key repr ` set added \<inter> insert ?k seen = {}"
           "[] \<notin> dedup_key repr ` set added"
           "seen' = insert ?k seen \<union> dedup_key repr ` set added"
        by blast
      have "out' = out @ (?r # added)" using a(3) by simp
      moreover have "dedup_key repr ` set (?r # added) \<inter> seen = {}"
        using a(4) False by auto
      moreover have "[] \<notin> dedup_key repr ` set (?r # added)"
        using a(5) False by auto
      moreover have "seen' = seen \<union> dedup_key repr ` set (?r # added)"
        using a(6) by auto
      ultimately show ?thesis using a(1,2) by blast
    qed
  qed (use Cons in auto)
qed

lemma gd_rows_mono:
  "gd_rows repr fmt base its (seen, out) = (seen', out') \<Longrightarrow> seen \<subseteq> seen'"
proof (induction its arbitrary: seen out)
  case Nil then show ?case by simp
next
  case (Cons y ys) then show ?case
    by (cases y) (auto simp: Let_def split: if_splits)
qed

lemma gd_rows_first:
  assumes "gd_rows repr fmt base its (seen, out) = (seen', out')"
    and "JDict it \<in> set its" and "dedup_key repr (gd_norm fmt it base) \<noteq> []"
  shows "dedup_key repr (gd_norm fmt it base) \<in> seen'"
  using assms
proof (induction its arbitrary: seen out)
  case Nil
  then show ?case by simp
next
  case (Cons x its)
  show ?case
  proof (cases x)
    case (JDict d)
    then show ?thesis using Cons
      by (auto simp: Let_def split: if_splits dest: gd_rows_mono)
  qed (use Cons in auto)
qed


lemma gd_files_inv:
  assumes "gd_files repr fmt fs (seen, out) = (seen', out')"
    and "distinct (map (dedup_key repr) out)" and "dedup_key repr ` set out = seen"
    and "[] \<notin> seen"
  shows "distinct (map (dedup_key repr) out') \<and> dedup_key repr ` set out' = seen'
     \<and> [] \<notin> seen' \<and> seen \<subseteq> seen'"
  using assms
proof (induction fs arbitrary: seen out)
  case Nil
  then show ?case by simp
next
  case (Cons f fs)
  obtain base j where f: "f = (base, j)" by (cases f)
  show ?case
  proof (cases "gd_file_rows j")
    case None
    with Cons.prems f have "gd_files repr fmt fs (seen, out) = (seen', out')" by simp
    from Cons.IH[OF this Cons.prems(2,3,4)] show ?thesis .
  next
    case (Some rows)
    obtain s1 o1 where r: "gd_rows repr fmt base rows (seen, out) = (s1, o1)"
      by (cases "gd_rows repr fmt base rows (seen, out)")
    have sub: "dedup_key repr ` set out \<subseteq> seen" using Cons.prems(3) by simp
    from gd_rows_inv[OF r Cons.prems(2) sub] obtain added where
      a: "distinct (map (dedup_key repr) o1)" "o1 = out @ added"
         "[] \<notin> dedup_key repr ` set added" "s1 = seen \<union> dedup_key repr ` set added"
      by blast
    have e: "dedup_key repr ` set o1 = s1" using a(2,4) Cons.prems(3) by auto
    have n: "[] \<notin> s1" using a(3,4) Cons.prems(4) by auto
    have "gd_files repr fmt fs (s1, o1) = (seen', out')"
      using Cons.prems(1) f Some r by simp
    from Cons.IH[OF this a(1) e n] show ?thesis using a(4) by auto
  qed
qed

lemma gd_files_first:
  assumes "gd_files repr fmt fs (seen, out) = (seen', out')"
    and "(base, j) \<in> set fs" and "gd_file_rows j = Some rows"
    and "JDict it \<in> set rows" and "dedup_key repr (gd_norm fmt it base) \<noteq> []"
    and "distinct (map (dedup_key repr) out)" and "dedup_key repr ` set out = seen"
    and "[] \<notin> seen"
  shows "dedup_key repr (gd_norm fmt it base) \<in> seen'"
  using assms
proof (induction fs arbitrary: seen out)
  case Nil
  then show ?case by simp
next
  case (Cons f fs)
  obtain b' j' where f: "f = (b', j')" by (cases f)
  obtain s1 o1 where st: "(case gd_file_rows j' of None \<Rightarrow> (seen, out)
       | Some rs \<Rightarrow> gd_rows repr fmt b' rs (seen, out)) = (s1, o1)"
    by (cases "case gd_file_rows j' of None \<Rightarrow> (seen, out)
       | Some rs \<Rightarrow> gd_rows repr fmt b' rs (seen, out)")
  have rest: "gd_files repr fmt fs (s1, o1) = (seen', out')"
    using Cons.prems(1) f st by (auto split: option.splits)
  have inv1: "distinct (map (dedup_key repr) o1) \<and> dedup_key repr ` set o1 = s1 \<and> [] \<notin> s1"
  proof (cases "gd_file_rows j'")
    case None
    then show ?thesis using st Cons.prems(6,7,8) by simp
  next
    case (Some rs)
    then have r: "gd_rows repr fmt b' rs (seen, out) = (s1, o1)" using st by simp
    have sub: "dedup_key repr ` set out \<subseteq> seen" using Cons.prems(7) by simp
    from gd_rows_inv[OF r Cons.prems(6) sub] Cons.prems(7,8) show ?thesis by auto
  qed
  show ?case
  proof (cases "(base, j) = f")
    case True
    then have "gd_rows repr fmt base rows (seen, out) = (s1, o1)"
      using st f Cons.prems(3) by simp
    from gd_rows_first[OF this Cons.prems(4,5)]
    have "dedup_key repr (gd_norm fmt it base) \<in> s1" .
    moreover have "s1 \<subseteq> seen'" using gd_files_inv[OF rest] inv1 by blast
    ultimately show ?thesis by blast
  next
    case False
    then have "(base, j) \<in> set fs" using Cons.prems(2) by auto
    from Cons.IH[OF rest this Cons.prems(3,4,5)] inv1 show ?thesis by blast
  qed
qed

lemma hb_key_of_not_falsy: "\<not> hb_key_falsy (hb_key_of x)"
  by (simp add: hb_key_of_def split: option.splits)

lemma hb_items_inv:
  assumes "hb_items xs (seen, jl) = (seen', jl')"
  shows "\<exists>added. jl' = jl @ added \<and> distinct (map hb_key_of added)
     \<and> hb_key_of ` set added \<inter> seen = {}
     \<and> seen' = seen \<union> hb_key_of ` set added \<and> hb_key_of ` set xs \<subseteq> seen'"
  using assms
proof (induction xs arbitrary: seen jl)
  case Nil
  then show ?case by simp
next
  case (Cons x xs)
  let ?k = "hb_key_of x"
  show ?case
  proof (cases "?k \<in> seen")
    case True
    with Cons.prems have "hb_items xs (seen, jl) = (seen', jl')"
      by (simp add: Let_def)
    from Cons.IH[OF this] True show ?thesis by auto
  next
    case False
    with Cons.prems have "hb_items xs (insert ?k seen, jl @ [x]) = (seen', jl')"
      by (simp add: Let_def hb_key_of_not_falsy)
    from Cons.IH[OF this] obtain added where
      a: "jl' = (jl @ [x]) @ added" "distinct (map hb_key_of added)"
         "hb_key_of ` set added \<inter> insert ?k seen = {}"
         "seen' = insert ?k seen \<union> hb_key_of ` set added" "hb_key_of ` set xs \<subseteq> seen'"
      by blast
    have "jl' = jl @ (x # added)" using a(1) by simp
    moreover have "distinct (map hb_key_of (x # added))" using a(2,3) by auto
    moreover have "hb_key_of ` set (x # added) \<inter> seen = {}" using a(3) False by auto
    moreover have "seen' = seen \<union> hb_key_of ` set (x # added)" using a(4) by auto
    moreover have "hb_key_of ` set (x # xs) \<subseteq> seen'" using a(4,5) by auto
    ultimately show ?thesis by blast
  qed
qed

text \<open>
  Claim C1, as the code has it. In the Guangdong script every key occurs at most once in
  \<open>rows_out\<close>, the keys of \<open>rows_out\<close> are exactly the seen-set, the empty key is never
  emitted, and every non-empty key of a row of a readable file is emitted. In the Hubei
  crawler, from any seen-set (one restored from a checkpoint included), the cards appended to
  the log have pairwise different keys, none of which was in the seen-set before, and
  afterwards the seen-set holds the key of every card of the page: a key is emitted on its
  first occurrence and never again.
\<close>

theorem dedup_emits_identity_once:
  "distinct (map (dedup_key repr) (snd (gd_main repr fmt fs)))
   \<and> dedup_key repr ` set (snd (gd_main repr fmt fs)) = fst (gd_main repr fmt fs)
   \<and> [] \<notin> fst (gd_main repr fmt fs)
   \<and> ((base, j) \<in> set fs \<and> gd_file_rows j = Some rows \<and> JDict it \<in> set rows
        \<and> dedup_key repr (gd_norm fmt it base) \<noteq> []
      \<longrightarrow> dedup_key repr (gd_norm fmt it base) \<in> fst (gd_main repr fmt fs))
   \<and> (\<exists>added. snd (hb_items xs (seen, jl)) = jl @ added
        \<and> distinct (map hb_key_of added)
        \<and> hb_key_of ` set added \<inter> seen = {}
        \<and> fst (hb_items xs (seen, jl)) = seen \<union> hb_key_of ` set added
        \<and> hb_key_of ` set xs \<subseteq> fst (hb_items xs (seen, jl)))"
proof -
  obtain s r where m: "gd_files repr fmt fs ({}, []) = (s, r)"
    by (cases "gd_files repr fmt fs ({}, [])")
  have inv: "distinct (map (dedup_key repr) r) \<and> dedup_key repr ` set r = s \<and> [] \<notin> s"
    using gd_files_inv[OF m] by simp
  have first: "(base, j) \<in> set fs \<and> gd_file_rows j = Some rows \<and> JDict it \<in> set rows
        \<and> dedup_key repr (gd_norm fmt it base) \<noteq> []
      \<longrightarrow> dedup_key repr (gd_norm fmt it base) \<in> s"
    using gd_files_first[OF m, of base j rows it] by simp
  obtain s' l' where h: "hb_items xs (seen, jl) = (s', l')"
    by (cases "hb_items xs (seen, jl)")
  from hb_items_inv[OF h] inv first show ?thesis
    by (simp add: gd_main_def m h)
qed

theorem dedup_emits_identity_once_witness:
  "u ''7'' \<in> fst (gd_main repr_unused fmt_unused gd_example_files)
   \<and> distinct (map (dedup_key repr_unused) (snd (gd_main repr_unused fmt_unused gd_example_files)))
   \<and> (\<exists>added. snd (hb_items [hb_example_card, hb_example_card] ({}, [])) = added
         \<and> distinct (map hb_key_of added)
         \<and> fst (hb_items [hb_example_card, hb_example_card] ({}, [])) = hb_key_of ` set added)"
proof -
  have a: "(u ''f'', Some (JDict [(u ''data'', JDict [(u ''rows'',
          JList [JDict [(u ''id'', JInt 7)], JDict [(u ''id'', JInt 7)]])])])) \<in> set gd_example_files"
    by (simp add: gd_example_files_def)
  have b: "gd_file_rows (Some (JDict [(u ''data'', JDict [(u ''rows'',
          JList [JDict [(u ''id'', JInt 7)], JDict [(u ''id'', JInt 7)]])])]))
        = Some [JDict [(u ''id'', JInt 7)], JDict [(u ''id'', JInt 7)]]"
    by (simp add: dict_get_def dict_get_default_def u_simps)
  have c: "dedup_key repr_unused (gd_norm fmt_unused [(u ''id'', JInt 7)] (u ''f'')) = u ''7''"
    by (simp add: dedup_key_def gd_norm_def dict_get_default_def u_simps py_strip_def
        py_isspace_def dec_int_def dec_nat.simps)
  have d: "u ''7'' \<noteq> []" by (simp add: u_simps)
  show ?thesis
    using dedup_emits_identity_once[of repr_unused fmt_unused gd_example_files "u ''f''"
        "Some (JDict [(u ''data'', JDict [(u ''rows'',
          JList [JDict [(u ''id'', JInt 7)], JDict [(u ''id'', JInt 7)]])])])"
        "[JDict [(u ''id'', JInt 7)], JDict [(u ''id'', JInt 7)]]" "[(u ''id'', JInt 7)]"
        "[hb_example_card, hb_example_card]" "{}" "[]"] a b c d
    by simp
qed

text \<open>
  Claim C1 as stated fails for the empty identity: in the Guangdong script a row without
  product id and product number has the key \<open>""\<close>, and \<open>if not k or k in seen: continue\<close>
  skips it on its first occurrence, with an empty seen-set.
\<close>

theorem dedup_empty_identity_counterexample:
  "dedup_key repr_unused (gd_norm fmt_unused [] (u ''f'')) = []
   \<and> gd_rows repr_unused fmt_unused (u ''f'') [JDict []] ({}, []) = ({}, [])"
  by (simp add: dedup_key_def gd_norm_def dict_get_default_def u_simps py_strip_def py_isspace_def Let_def)

section \<open>Properties of the tag fields\<close>

lemma remdups_snoc: "remdups (zs @ [a]) = remdups (filter (\<lambda>y. y \<noteq> a) zs) @ [a]"
  by (induction zs) auto

lemma dedup_tags_eq:
  "dedup_tags xs seen out =
     out @ rev (remdups (rev (filter (\<lambda>x. x \<noteq> [] \<and> x \<notin> seen) (map py_strip xs))))"
proof (induction xs arbitrary: seen out)
  case Nil
  then show ?case by simp
next
  case (Cons x xs)
  let ?x = "py_strip x"
  show ?case
  proof (cases "?x = [] \<or> ?x \<in> seen")
    case True
    then show ?thesis using Cons.IH[of seen out] by (auto simp: Let_def)
  next
    case False
    have f: "filter (\<lambda>y. y \<notin> set [?x])
               (rev (filter (\<lambda>y. y \<noteq> [] \<and> y \<notin> seen) (map py_strip xs)))
           = rev (filter (\<lambda>y. y \<noteq> [] \<and> y \<notin> insert ?x seen) (map py_strip xs))"
      by (simp add: rev_filter[symmetric] conj_commute conj_left_commute) 
    have "rev (remdups (rev (filter (\<lambda>y. y \<noteq> [] \<and> y \<notin> seen) (map py_strip (x # xs)))))
        = rev (remdups (rev (filter (\<lambda>y. y \<noteq> [] \<and> y \<notin> seen) (map py_strip xs)) @ [?x]))"
      using False by simp
    also have "\<dots> = ?x # rev (remdups
        (rev (filter (\<lambda>y. y \<noteq> [] \<and> y \<notin> insert ?x seen) (map py_strip xs))))"
    proof -
      have "remdups (rev (filter (\<lambda>y. y \<noteq> [] \<and> y \<notin> seen) (map py_strip xs)) @ [?x])
          = remdups (filter (\<lambda>y. y \<notin> set [?x])
               (rev (filter (\<lambda>y. y \<noteq> [] \<and> y \<notin> seen) (map py_strip xs)))) @ remdups [?x]"
        by (simp add: remdups_snoc)
      then show ?thesis by (simp only: f) simp
    qed
    finally show ?thesis using False Cons.IH[of "insert ?x seen" "out @ [?x]"]
      by (simp add: Let_def)
  qed
qed

lemma dedup_tags_first_occurrences: "dedup_tags xs {} [] = first_occurrences xs"
  by (simp add: dedup_tags_eq first_occurrences_def)

lemma first_occurrences_distinct: "distinct (first_occurrences xs)"
  by (simp add: first_occurrences_def)

lemma first_occurrences_set: "set (first_occurrences xs) = py_strip ` set xs - {[]}"
  by (auto simp: first_occurrences_def)

lemma map_of_dict_set: "map_of (dict_set d k v) k' = (if k' = k then Some v else map_of d k')"
  by (induction d k v rule: dict_set.induct) auto

lemma dict_get_dict_set: "dict_get (dict_set d k v) k' = (if k' = k then v else dict_get d k')"
  by (simp add: dict_get_def dict_get_default_def map_of_dict_set)

lemma dict_get_normalize_field:
  "dict_get (normalize_field repr k out) k' =
     (if k' = k then
        (case dict_get out k of
           JList v \<Rightarrow> JStr (py_join (u ''|'') (map (py_str repr) v))
         | JNull \<Rightarrow> JStr []
         | v \<Rightarrow> JStr (py_str repr v))
      else dict_get out k')"
  by (simp add: normalize_field_def dict_get_dict_set split: json.splits)

lemma tag_keys_distinct:
  "u ''zoneName'' \<noteq> u ''aiTag''" "u ''sectorName'' \<noteq> u ''aiTag''"
  "u ''zoneName'' \<noteq> u ''sectorName''"
  by (simp_all add: u_simps)

lemma normalize_item_list_field:
  assumes "k \<in> {u ''aiTag'', u ''sectorName'', u ''zoneName''}"
    and "dict_get item k = JList v"
  shows "dict_get (normalize_item repr item) k = JStr (py_join (u ''|'') (map (py_str repr) v))"
  using assms tag_keys_distinct
  by (auto simp: normalize_item_def dict_get_normalize_field)

lemma flatten_product_tags_list:
  "flatten_product_tags repr (JList ts) =
     py_join (u ''|'') (first_occurrences (map (tag_text repr) ts))"
  by (cases ts) (simp_all add: flatten_product_tags_def dedup_tags_first_occurrences
      first_occurrences_def)

lemma first_occurrences_ABA: "first_occurrences [u ''A'', u ''B'', u ''A''] = [u ''A'', u ''B'']"
  by (simp add: first_occurrences_def u_simps py_strip_def py_isspace_def)

lemma join_AB: "py_join (u ''|'') [u ''A'', u ''B''] = u ''A|B''"
  by (simp add: u_simps)

lemma join_ABA: "py_join (u ''|'') [u ''A'', u ''B'', u ''A''] = u ''A|B|A''"
  by (simp add: u_simps)

lemma sh_example_aiTag: "dict_get sh_example_item (u ''aiTag'') = JList tags_example"
  by (simp add: sh_example_item_def dict_get_def dict_get_default_def)

lemma tags_example_texts: "map (py_str repr_unused) tags_example = [u ''A'', u ''B'', u ''A'']"
  by (simp add: tags_example_def)

text \<open>
  Claim C8, as the code has it. The Anhui crawler's \<open>_flatten_product_tags\<close> joins with
  \<open>|\<close> the stripped, non-empty tags of the list, each at its first occurrence only, so
  \<open>["A", "B", "A"]\<close> gives \<open>"A|B"\<close>. The Shanghai crawler's \<open>normalize_item\<close> joins the
  texts of all elements of \<open>aiTag\<close>, \<open>sectorName\<close> and \<open>zoneName\<close> in their order and
  removes none.
\<close>

theorem tags_joined_first_occurrences:
  "flatten_product_tags repr (JList ts) =
     py_join (u ''|'') (first_occurrences (map (tag_text repr) ts))
   \<and> distinct (first_occurrences xs)
   \<and> set (first_occurrences xs) = py_strip ` set xs - {[]}
   \<and> flatten_product_tags repr (JList [JStr (u ''A''), JStr (u ''B''), JStr (u ''A'')]) = u ''A|B''
   \<and> (k \<in> {u ''aiTag'', u ''sectorName'', u ''zoneName''} \<and> dict_get item k = JList v
        \<longrightarrow> dict_get (normalize_item repr item) k
              = JStr (py_join (u ''|'') (map (py_str repr) v)))"
proof -
  have "flatten_product_tags repr (JList [JStr (u ''A''), JStr (u ''B''), JStr (u ''A'')])
      = py_join (u ''|'') (first_occurrences [u ''A'', u ''B'', u ''A''])"
    by (simp add: flatten_product_tags_list)
  also have "\<dots> = py_join (u ''|'') [u ''A'', u ''B'']"
    by (simp only: first_occurrences_ABA)
  also have "\<dots> = u ''A|B''"
    by (rule join_AB)
  finally show ?thesis
    using flatten_product_tags_list first_occurrences_distinct first_occurrences_set
      normalize_item_list_field by blast
qed

theorem tags_joined_first_occurrences_witness:
  "dict_get (normalize_item repr_unused sh_example_item) (u ''aiTag'') = JStr (u ''A|B|A'')"
  using tags_joined_first_occurrences[of repr_unused "[]" "[]" "u ''aiTag''" sh_example_item
      tags_example] sh_example_aiTag
  by (simp only: tags_example_texts join_ABA) simp

text \<open>
  Claim C8 as stated fails in the Shanghai crawler: the tags \<open>["A", "B", "A"]\<close> are
  rendered as \<open>"A|B|A"\<close>, not as \<open>"A|B"\<close>.
\<close>

theorem tags_not_deduplicated_counterexample:
  "dict_get sh_example_item (u ''aiTag'') = JList [JStr (u ''A''), JStr (u ''B''), JStr (u ''A'')]
   \<and> dict_get (normalize_item repr_unused sh_example_item) (u ''aiTag'') \<noteq> JStr (u ''A|B'')"
proof -
  have "dict_get (normalize_item repr_unused sh_example_item) (u ''aiTag'') = JStr (u ''A|B|A'')"
    using normalize_item_list_field[of "u ''aiTag''" sh_example_item tags_example repr_unused]
      sh_example_aiTag by (simp only: tags_example_texts join_ABA) simp
  moreover have "u ''A|B|A'' \<noteq> u ''A|B''" by (simp add: u_simps)
  ultimately show ?thesis using sh_example_aiTag by (simp add: tags_example_def)
qed

section \<open>Properties of the classifier\<close>

lemma fallback_in_targets: "fallback_category \<in> set TARGET_CATEGORIES"
  by (simp add: fallback_category_def TARGET_CATEGORIES_def)

lemma normalize_category_in: "normalize_category c \<in> set TARGET_CATEGORIES"
  by (simp add: normalize_category_def Let_def fallback_in_targets)

lemma normalize_category_fallback:
  "py_strip c \<notin> set TARGET_CATEGORIES \<Longrightarrow> normalize_category c = fallback_category"
  by (simp add: normalize_category_def Let_def)

lemma clamp_range: "\<exists>r. py_max (Fin 0) (py_min (Fin 1) c) = Fin r \<and> 0 \<le> r \<and> r \<le> 1"
  by (cases c) (auto simp: py_max_def py_min_def)

lemma clamp_Fin: "py_max (Fin 0) (py_min (Fin 1) (Fin x)) = Fin (max 0 (min 1 x))"
  by (auto simp: py_max_def py_min_def)

lemma confidence_of_range: "\<exists>r. confidence_of env data = Fin r \<and> 0 \<le> r \<and> r \<le> 1"
  by (simp add: confidence_of_def Let_def clamp_range)

lemma classify_response_Inr:
  assumes "classify_response env resp = Inr r"
  shows "mapped_category r \<in> set TARGET_CATEGORIES
         \<and> (\<exists>x. confidence r = Fin x \<and> 0 \<le> x \<and> x \<le> 1)"
  using assms confidence_of_range[of env]
  by (auto simp: classify_response_def Let_def normalize_category_in
      split: api_outcome.splits option.splits if_splits)

lemma attempts_loop_Inr:
  "attempts_loop env client n as last_err = Inr r \<Longrightarrow>
   \<exists>a\<in>set as. classify_response env (client a) = Inr r"
  by (induction as arbitrary: last_err) (auto split: sum.splits if_splits)

lemma attempts_loop_all_fail:
  "\<forall>a\<in>set as. isl (classify_response env (client a)) \<Longrightarrow>
   isl (attempts_loop env client n as last_err)"
  by (induction as arbitrary: last_err) (auto split: sum.splits)

lemma call_cases:
  "(\<exists>a\<in>{1..n}. classify_response env (client a) = Inr (call_deepseek_json env client n))
   \<or> (mapped_category (call_deepseek_json env client n) = fallback_category
      \<and> confidence (call_deepseek_json env client n) = Fin 0)"
proof (cases "attempts_loop env client n [1..n] None")
  case (Inl e)
  then show ?thesis by (simp add: call_deepseek_json_def)
next
  case (Inr r)
  from attempts_loop_Inr[OF this] Inr show ?thesis
    by (auto simp: call_deepseek_json_def)
qed

lemma call_all_fail:
  assumes "\<forall>a\<in>{1..n}. isl (classify_response env (client a))"
  shows "mapped_category (call_deepseek_json env client n) = fallback_category
      \<and> confidence (call_deepseek_json env client n) = Fin 0"
proof -
  have "isl (attempts_loop env client n [1..n] None)"
    using assms by (intro attempts_loop_all_fail) simp
  then show ?thesis by (auto simp: call_deepseek_json_def split: sum.splits)
qed

lemma classify_empty: "classify_response env (Content None) = Inl EmptyContent"
  by (simp add: classify_response_def py_strip_def)

lemma classify_unparseable:
  "env_loads env (py_strip c) = None \<Longrightarrow> isl (classify_response env (Content (Some c)))"
  by (simp add: classify_response_def Let_def safe_get_json_def)

lemma classify_unknown_label:
  assumes "py_strip c \<noteq> []" "env_loads env (py_strip c) = Some (JDict data)" "data \<noteq> []"
    and "py_strip (py_str (env_repr env) (dict_get_default data (u ''mapped_category'') (JStr [])))
           \<notin> set TARGET_CATEGORIES"
  shows "\<exists>r. classify_response env (Content (Some c)) = Inr r
             \<and> mapped_category r = fallback_category"
  using assms
  by (simp add: classify_response_def Let_def safe_get_json_def normalize_category_fallback)

lemma example_strip: "py_strip example_content = example_content"
  by (simp add: example_content_def u_simps py_strip_def py_isspace_def)

lemma example_nonempty: "example_content \<noteq> []"
  by (simp add: example_content_def u_simps)

lemma example_loads_content:
  "env_loads example_env example_content =
     Some (JDict [(u ''mapped_category'', JStr (u ''nonexistent'')), (u ''confidence'', JInt 7)])"
  by (simp add: example_env_def example_loads_def)

lemma example_label:
  "py_strip (py_str (env_repr example_env)
      (dict_get_default [(u ''mapped_category'', JStr (u ''nonexistent'')), (u ''confidence'', JInt 7)]
         (u ''mapped_category'') (JStr []))) \<notin> set TARGET_CATEGORIES"
  by (simp add: dict_get_default_def u_simps py_strip_def py_isspace_def TARGET_CATEGORIES_def)

lemma confidence_missing:
  "map_of data (u ''confidence'') = None \<Longrightarrow> confidence_of env data = Fin 0"
  by (simp add: confidence_of_def dict_get_default_def py_max_def py_min_def)

lemma confidence_not_numeric:
  "py_float (env_float_of_int env) (env_float_of_str env)
     (dict_get_default data (u ''confidence'') (JFloat (Fin 0))) = None
   \<Longrightarrow> confidence_of env data = Fin 0"
  by (simp add: confidence_of_def py_max_def py_min_def)

lemma confidence_clamped:
  "py_float (env_float_of_int env) (env_float_of_str env)
     (dict_get_default data (u ''confidence'') (JFloat (Fin 0))) = Some (Fin x)
   \<Longrightarrow> confidence_of env data = Fin (max 0 (min 1 x))"
  by (simp add: confidence_of_def clamp_Fin)

lemma classify_confidence:
  "classify_response env resp = Inr r \<Longrightarrow> \<exists>data. confidence r = confidence_of env data"
  by (auto simp: classify_response_def Let_def split: api_outcome.splits option.splits if_splits)

lemma example_confidence:
  "py_float (env_float_of_int example_env) (env_float_of_str example_env)
     (dict_get_default [(u ''mapped_category'', JStr (u ''nonexistent'')), (u ''confidence'', JInt 7)]
        (u ''confidence'') (JFloat (Fin 0))) = Some (Fin 7)"
  by (simp add: dict_get_default_def u_simps example_env_def)

text \<open>
  Claim C9. \<open>call_deepseek_json\<close> always returns a result (every exception of an attempt is
  caught by the loop, and the code after the loop cannot raise), and the label of the result
  is one of the ten enumerated labels. When every attempt ends in an exception (an
  exception of the client, empty content, content that does not decode to a non-empty dict)
  the label is the fallback label; empty and undecodable content do end in an exception;
  and a decoded answer whose \<open>mapped_category\<close> is not an enumerated label gets the fallback
  label.
\<close>

theorem classifier_label_in_closed_set:
  "mapped_category (call_deepseek_json env client n) \<in> set TARGET_CATEGORIES
   \<and> ((\<forall>a\<in>{1..n}. isl (classify_response env (client a)))
        \<longrightarrow> mapped_category (call_deepseek_json env client n) = fallback_category)
   \<and> classify_response env (Content None) = Inl EmptyContent
   \<and> (py_strip c = [] \<longrightarrow> classify_response env (Content (Some c)) = Inl EmptyContent)
   \<and> (env_loads env (py_strip c) = None \<longrightarrow> isl (classify_response env (Content (Some c))))
   \<and> (py_strip c \<noteq> [] \<and> env_loads env (py_strip c) = Some (JDict data) \<and> data \<noteq> []
        \<and> py_strip (py_str (env_repr env)
              (dict_get_default data (u ''mapped_category'') (JStr []))) \<notin> set TARGET_CATEGORIES
        \<longrightarrow> (\<exists>r. classify_response env (Content (Some c)) = Inr r
                 \<and> mapped_category r = fallback_category))"
proof -
  have 1: "mapped_category (call_deepseek_json env client n) \<in> set TARGET_CATEGORIES"
    using call_cases[of n env client] classify_response_Inr fallback_in_targets by metis
  have 4: "py_strip c = [] \<longrightarrow> classify_response env (Content (Some c)) = Inl EmptyContent"
    by (simp add: classify_response_def)
  show ?thesis
    using 1 4 call_all_fail[of n env client] classify_empty classify_unparseable
      classify_unknown_label by blast
qed

lemma example_blank: "py_strip (u '' '') = []"
  by (simp add: u_simps py_strip_def py_isspace_def)

lemma example_undecodable: "env_loads example_env (py_strip (u ''x'')) = None"
  by (simp add: u_simps py_strip_def py_isspace_def example_env_def example_loads_def
      example_content_def)

theorem classifier_label_in_closed_set_witness:
  "mapped_category (call_deepseek_json example_env client_empty 5) = fallback_category
   \<and> (\<exists>r. classify_response example_env (Content (Some example_content)) = Inr r
          \<and> mapped_category r = fallback_category)
   \<and> classify_response example_env (Content (Some (u '' ''))) = Inl EmptyContent
   \<and> isl (classify_response example_env (Content (Some (u ''x''))))"
proof -
  have e: "\<forall>a\<in>{1..5}. isl (classify_response example_env (client_empty a))"
    by (simp add: client_empty_def classify_empty)
  have a: "mapped_category (call_deepseek_json example_env client_empty 5) = fallback_category
   \<and> (\<exists>r. classify_response example_env (Content (Some example_content)) = Inr r
          \<and> mapped_category r = fallback_category)"
    using classifier_label_in_closed_set[of example_env client_empty 5 example_content
        "[(u ''mapped_category'', JStr (u ''nonexistent'')), (u ''confidence'', JInt 7)]"]
      e example_loads_content example_label example_nonempty
    by (simp only: example_strip) simp
  have b: "classify_response example_env (Content (Some (u '' ''))) = Inl EmptyContent"
    using classifier_label_in_closed_set[of example_env client_empty 5 "u '' ''" "[]"]
      example_blank by blast
  have c: "isl (classify_response example_env (Content (Some (u ''x''))))"
    using classifier_label_in_closed_set[of example_env client_empty 5 "u ''x''" "[]"]
      example_undecodable by blast
  show ?thesis using a b c by blast
qed

text \<open>
  Claim C10. The confidence of every result is a finite float in the closed interval from
  0 to 1. For a decoded answer it is \<open>confidence_of\<close>: 0.0 when the field is missing or
  \<open>float\<close> raises on it, the value clamped by \<open>max(0.0, min(1.0, x))\<close> when it is a finite
  number \<open>x\<close>; and when every attempt fails the result carries 0.0.
\<close>

theorem classifier_confidence_in_unit_interval:
  "(\<exists>r. confidence (call_deepseek_json env client n) = Fin r \<and> 0 \<le> r \<and> r \<le> 1)
   \<and> (classify_response env resp = Inr res
        \<longrightarrow> (\<exists>data. confidence res = confidence_of env data)
            \<and> (\<exists>r. confidence res = Fin r \<and> 0 \<le> r \<and> r \<le> 1))
   \<and> (map_of data (u ''confidence'') = None \<longrightarrow> confidence_of env data = Fin 0)
   \<and> (py_float (env_float_of_int env) (env_float_of_str env)
         (dict_get_default data (u ''confidence'') (JFloat (Fin 0))) = None
        \<longrightarrow> confidence_of env data = Fin 0)
   \<and> (py_float (env_float_of_int env) (env_float_of_str env)
         (dict_get_default data (u ''confidence'') (JFloat (Fin 0))) = Some (Fin x)
        \<longrightarrow> confidence_of env data = Fin (max 0 (min 1 x)))
   \<and> ((\<forall>a\<in>{1..n}. isl (classify_response env (client a)))
        \<longrightarrow> confidence (call_deepseek_json env client n) = Fin 0)"
proof -
  have 1: "\<exists>r. confidence (call_deepseek_json env client n) = Fin r \<and> 0 \<le> r \<and> r \<le> 1"
    using call_cases[of n env client] classify_response_Inr
    by (metis order_refl zero_le_one)
  show ?thesis
    using 1 classify_confidence classify_response_Inr confidence_missing
      confidence_not_numeric confidence_clamped call_all_fail[of n env client]
    by blast
qed

lemma example_classified:
  "classify_response example_env (client_nonexistent 1) =
     Inr \<lparr>mapped_category = fallback_category, confidence = Fin 1, reason = [],
          raw_json = example_content, error = []\<rparr>"
proof -
  have g1: "dict_get_default
      [(u ''mapped_category'', JStr (u ''nonexistent'')), (u ''confidence'', JInt 7)]
      (u ''mapped_category'') (JStr []) = JStr (u ''nonexistent'')"
    by (simp add: dict_get_default_def)
  have g2: "dict_get_default
      [(u ''mapped_category'', JStr (u ''nonexistent'')), (u ''confidence'', JInt 7)]
      (u ''reason'') (JStr []) = JStr []"
    by (simp add: dict_get_default_def u_simps)
  have n: "normalize_category (u ''nonexistent'') = fallback_category"
    using example_label g1 by (simp add: normalize_category_fallback)
  have c: "confidence_of example_env
      [(u ''mapped_category'', JStr (u ''nonexistent'')), (u ''confidence'', JInt 7)] = Fin 1"
    using confidence_clamped[OF example_confidence] by simp
  show ?thesis
    by (simp add: classify_response_def client_nonexistent_def example_strip example_nonempty
        Let_def safe_get_json_def example_loads_content g1 g2 n c)
qed

theorem classifier_confidence_in_unit_interval_witness:
  "confidence (call_deepseek_json example_env client_empty 5) = Fin 0
   \<and> confidence_of example_env
        [(u ''mapped_category'', JStr (u ''nonexistent'')), (u ''confidence'', JInt 7)] = Fin 1
   \<and> confidence_of example_env [(u ''mapped_category'', JStr (u ''nonexistent''))] = Fin 0
   \<and> confidence_of example_env [(u ''confidence'', JStr (u ''high''))] = Fin 0
   \<and> (\<exists>r. Fin 1 = Fin r \<and> 0 \<le> r \<and> r \<le> 1)"
proof -
  have e: "\<forall>a\<in>{1..5}. isl (classify_response example_env (client_empty a))"
    by (simp add: client_empty_def classify_empty)
  have m: "map_of [(u ''mapped_category'', JStr (u ''nonexistent''))] (u ''confidence'') = None"
    by (simp add: u_simps)
  have s: "py_float (env_float_of_int example_env) (env_float_of_str example_env)
     (dict_get_default [(u ''confidence'', JStr (u ''high''))] (u ''confidence'')
        (JFloat (Fin 0))) = None"
    by (simp add: dict_get_default_def example_env_def)
  have a: "confidence (call_deepseek_json example_env client_empty 5) = Fin 0
   \<and> confidence_of example_env
        [(u ''mapped_category'', JStr (u ''nonexistent'')), (u ''confidence'', JInt 7)] = Fin 1
   \<and> (\<exists>r. Fin 1 = Fin r \<and> 0 \<le> r \<and> r \<le> 1)"
    using classifier_confidence_in_unit_interval[of example_env client_empty 5
        "client_nonexistent 1"
        "\<lparr>mapped_category = fallback_category, confidence = Fin 1, reason = [],
          raw_json = example_content, error = []\<rparr>"
        "[(u ''mapped_category'', JStr (u ''nonexistent'')), (u ''confidence'', JInt 7)]" 7]
      e example_confidence example_classified
    by simp
  have b: "confidence_of example_env [(u ''mapped_category'', JStr (u ''nonexistent''))] = Fin 0"
    using classifier_confidence_in_unit_interval[of example_env client_empty 5
        "client_nonexistent 1"
        "\<lparr>mapped_category = fallback_category, confidence = Fin 1, reason = [],
          raw_json = example_content, error = []\<rparr>"
        "[(u ''mapped_category'', JStr (u ''nonexistent''))]" 0] m
    by blast
  have c: "confidence_of example_env [(u ''confidence'', JStr (u ''high''))] = Fin 0"
    using classifier_confidence_in_unit_interval[of example_env client_empty 5
        "client_nonexistent 1"
        "\<lparr>mapped_category = fallback_category, confidence = Fin 1, reason = [],
          raw_json = example_content, error = []\<rparr>"
        "[(u ''confidence'', JStr (u ''high''))]" 0] s
    by blast
  show ?thesis using a b c by blast
qed

section \<open>Properties of the flattening\<close>

lemma map_of_flatten_fold:
  "distinct (map fst r) \<Longrightarrow>
   map_of (fold (\<lambda>(k, v) out. dict_set out k (flatten_value fr v)) r acc) k =
     (case map_of r k of Some v \<Rightarrow> Some (flatten_value fr v) | None \<Rightarrow> map_of acc k)"
proof (induction r arbitrary: acc)
  case Nil
  then show ?case by simp
next
  case (Cons kv r)
  obtain k0 v0 where kv: "kv = (k0, v0)" by (cases kv)
  have "k0 \<notin> fst ` set r" using Cons.prems kv by simp
  then have n: "map_of r k0 = None" by (simp add: map_of_eq_None_iff)
  show ?case using Cons kv n by (auto simp: map_of_dict_set split: option.splits)
qed

lemma map_of_flatten_record:
  "distinct (map fst r) \<Longrightarrow>
   map_of (flatten_record fr r) k = map_option (flatten_value fr) (map_of r k)"
  by (simp add: flatten_record_def map_of_flatten_fold split: option.splits)

lemma nested_equal: "equal_as_mappings nested_ab nested_ba"
  by (simp add: equal_as_mappings_def nested_ab_def nested_ba_def u_simps)

lemma flatten_nested_ab:
  "map_of (flatten_record float_repr_unused nested_ab) (u ''x'') =
     Some (JStr [123, 34, 97, 34, 58, 32, 49, 44, 32, 34, 98, 34, 58, 32, 50, 125])"
  by (simp add: flatten_record_def nested_ab_def u_simps dumps_str_def escape_char_def
      dec_int_def dec_nat.simps)

lemma flatten_nested_ba:
  "map_of (flatten_record float_repr_unused nested_ba) (u ''x'') =
     Some (JStr [123, 34, 98, 34, 58, 32, 50, 44, 32, 34, 97, 34, 58, 32, 49, 125])"
  by (simp add: flatten_record_def nested_ba_def u_simps dumps_str_def escape_char_def
      dec_int_def dec_nat.simps)

lemma top_same: "map_of top_ax = map_of top_xa"
  by (rule ext) (simp add: top_ax_def top_xa_def u_simps)

lemma top_distinct: "distinct (map fst top_ax)" "distinct (map fst top_xa)"
  by (simp_all add: top_ax_def top_xa_def u_simps)

text \<open>
  Claim C3, as the code has it. For a record without repeated keys the flat row maps every
  key of the record to its flattened value, so two records that are the same mapping of
  keys to values -- in whatever order their top-level keys were inserted, and with nested
  values that are identical, the key order of nested dicts included -- give the same flat
  row.
\<close>

theorem flatten_record_top_level_order:
  "(distinct (map fst r) \<longrightarrow>
      map_of (flatten_record fr r) k = map_option (flatten_value fr) (map_of r k))
   \<and> (distinct (map fst r1) \<and> distinct (map fst r2) \<and> map_of r1 = map_of r2
        \<longrightarrow> map_of (flatten_record fr r1) = map_of (flatten_record fr r2))"
proof -
  have "distinct (map fst r1) \<and> distinct (map fst r2) \<and> map_of r1 = map_of r2
        \<longrightarrow> map_of (flatten_record fr r1) = map_of (flatten_record fr r2)"
    by (auto simp: map_of_flatten_record intro!: ext)
  then show ?thesis using map_of_flatten_record by blast
qed

theorem flatten_record_top_level_order_witness:
  "map_of (flatten_record float_repr_unused top_ax) = map_of (flatten_record float_repr_unused top_xa)
   \<and> map_of (flatten_record float_repr_unused top_ax) (u ''x'') = Some (JStr (u ''[1]''))"
proof -
  note t = flatten_record_top_level_order[of top_ax float_repr_unused "u ''x''" top_ax top_xa]
  have x: "map_of top_ax (u ''x'') = Some (JList [JInt 1])"
    by (simp add: top_ax_def u_simps)
  have d: "flatten_value float_repr_unused (JList [JInt 1]) = JStr (u ''[1]'')"
    by (simp add: u_simps dec_int_def dec_nat.simps)
  have a: "map_of (flatten_record float_repr_unused top_ax)
      = map_of (flatten_record float_repr_unused top_xa)"
    using t top_same top_distinct by blast
  have "map_of (flatten_record float_repr_unused top_ax) (u ''x'')
      = map_option (flatten_value float_repr_unused) (map_of top_ax (u ''x''))"
    using t top_distinct by blast
  then have b: "map_of (flatten_record float_repr_unused top_ax) (u ''x'') = Some (JStr (u ''[1]''))"
    by (simp only: x d option.map)
  show ?thesis using a b by blast
qed

text \<open>
  Claim C3 as stated fails for nested objects: \<open>json.dumps\<close> writes the items of a nested
  dict in that dict's own order, so \<open>{"x": {"a": 1, "b": 2}}\<close> and
  \<open>{"x": {"b": 2, "a": 1}}\<close>, which are equal as mappings, get the different texts
  \<open>{"a": 1, "b": 2}\<close> and \<open>{"b": 2, "a": 1}\<close> under \<open>x\<close>.
\<close>

theorem flatten_record_nested_order_counterexample:
  "equal_as_mappings nested_ab nested_ba
   \<and> map_of (flatten_record float_repr_unused nested_ab) (u ''x'')
       \<noteq> map_of (flatten_record float_repr_unused nested_ba) (u ''x'')"
  using nested_equal by (simp only: flatten_nested_ab flatten_nested_ba) simp

section \<open>Properties of the checkpoint files\<close>

lemma fold_writes:
  "g p = Holds t \<Longrightarrow> fold apply_op (map (Write p) cs) g = g(p := Holds (t @ concat cs))"
proof (induction cs arbitrary: g t)
  case Nil
  then show ?case by (simp add: fun_upd_idem)
next
  case (Cons c cs)
  have "fold apply_op (map (Write p) (c # cs)) g
      = fold apply_op (map (Write p) cs) (g(p := Holds (t @ c)))"
    using Cons.prems by simp
  also have "\<dots> = (g(p := Holds (t @ c)))(p := Holds ((t @ c) @ concat cs))"
    by (rule Cons.IH) simp
  also have "\<dots> = g(p := Holds (t @ concat (c # cs)))"
    by simp
  finally show ?case .
qed

lemma fold_open_writes:
  "fold apply_op (OpenW p # map (Write p) cs) f = f(p := Holds (concat cs))"
  using fold_writes[of "f(p := Holds [])" p "[]" cs] by simp

lemma tmp_neq: "path @ u ''.tmp'' \<noteq> path"
  by (simp add: u_simps)

lemma save_progress_final:
  "fold apply_op (save_progress_ops path chunks) f path = Holds (concat chunks)"
proof -
  have "fold apply_op (save_progress_ops path chunks) f
      = apply_op (Replace (path @ u ''.tmp'') path)
          (fold apply_op (OpenW (path @ u ''.tmp'') # map (Write (path @ u ''.tmp'')) chunks) f)"
    by (simp add: save_progress_ops_def Let_def)
  then show ?thesis using tmp_neq[of path] by (simp only: fold_open_writes) simp
qed

lemma save_progress_prefix:
  assumes "n \<le> length chunks + 1"
  shows "fold apply_op (take n (save_progress_ops path chunks)) f path = f path"
proof (cases n)
  case 0
  then show ?thesis by simp
next
  case (Suc m)
  then have m: "m \<le> length chunks" using assms by simp
  have "take n (save_progress_ops path chunks)
      = OpenW (path @ u ''.tmp'') # map (Write (path @ u ''.tmp'')) (take m chunks)"
    using Suc m by (simp add: save_progress_ops_def Let_def take_map)
  then show ?thesis using tmp_neq[of path] by (simp only: fold_open_writes) simp
qed

lemma length_save_progress_ops: "length (save_progress_ops path chunks) = length chunks + 2"
  by (simp add: save_progress_ops_def Let_def)

lemma save_progress_atomic:
  assumes "s \<in> set (fs_states (save_progress_ops path chunks) f)"
  shows "s path = f path \<or> s path = Holds (concat chunks)"
proof -
  from assms obtain n where "n < Suc (length (save_progress_ops path chunks))"
    and s: "s = fold apply_op (take n (save_progress_ops path chunks)) f"
    unfolding fs_states_def by (auto simp del: upt_Suc)
  then have n: "n \<le> length chunks + 2"
    by (simp add: length_save_progress_ops)
  show ?thesis
  proof (cases "n = length chunks + 2")
    case True
    then have "take n (save_progress_ops path chunks) = save_progress_ops path chunks"
      by (simp add: length_save_progress_ops)
    then show ?thesis using s save_progress_final by simp
  next
    case False
    then have "n \<le> length chunks + 1" using n by simp
    then show ?thesis using s save_progress_prefix by simp
  qed
qed

lemma save_checkpoint_final:
  "fold apply_op (save_checkpoint_ops path chunks) f path = Holds (concat chunks)"
  by (simp only: save_checkpoint_ops_def fold_open_writes) simp

lemma load_progress_ge_1: "1 \<le> load_progress env file"
  by (simp add: load_progress_def split: file_state.splits option.splits json.splits)

lemma load_progress_not_dict:
  "env_loads env t = Some v \<Longrightarrow> \<not> is_dict v \<Longrightarrow> load_progress env (Holds t) = 1"
  by (cases v) (simp_all add: load_progress_def)

lemma example_loads_x: "env_loads example_env (u ''x'') = None"
  by (simp add: example_env_def example_loads_def example_content_def u_simps)

text \<open>
  Claim C6, as the code has it. \<open>load_progress\<close> of the Hefei centre crawler never raises
  and gives page 1 when the progress file is absent, cannot be opened or read, does not
  decode, or decodes to something that is no dict; whatever the file holds, the page is at
  least 1. (This crawler keeps no seen-set.) \<open>load_checkpoint\<close> of the Hubei crawler gives
  the default checkpoint, page 1 and no seen keys, when the file is absent.
\<close>

theorem load_defaults_to_page_1:
  "load_progress env Absent = 1
   \<and> load_progress env Unreadable = 1
   \<and> (env_loads env t = None \<longrightarrow> load_progress env (Holds t) = 1)
   \<and> (env_loads env t = Some v \<and> \<not> is_dict v \<longrightarrow> load_progress env (Holds t) = 1)
   \<and> 1 \<le> load_progress env file
   \<and> load_checkpoint env Absent = Inr default_checkpoint"
proof -
  have "load_progress env Absent = 1" "load_progress env Unreadable = 1"
    "env_loads env t = None \<longrightarrow> load_progress env (Holds t) = 1"
    by (simp_all add: load_progress_def)
  moreover have "load_checkpoint env Absent = Inr default_checkpoint"
    by (simp add: load_checkpoint_def)
  ultimately show ?thesis
    using load_progress_ge_1 load_progress_not_dict by blast
qed

theorem load_defaults_to_page_1_witness:
  "load_progress example_env (Holds (u ''x'')) = 1
   \<and> load_progress example_env (Holds example_content) = 1"
proof -
  have a: "env_loads example_env example_content =
      Some (JDict [(u ''mapped_category'', JStr (u ''nonexistent'')), (u ''confidence'', JInt 7)])"
    by (simp add: example_env_def example_loads_def)
  have "1 \<le> load_progress example_env (Holds example_content)"
    using load_defaults_to_page_1[of example_env "u ''x''" JNull "Holds example_content"]
    by blast
  moreover have "load_progress example_env (Holds example_content) = 1"
    by (simp add: load_progress_def a dict_get_default_def u_simps)
  moreover have "load_progress example_env (Holds (u ''x'')) = 1"
    using load_defaults_to_page_1[of example_env "u ''x''" JNull Absent] example_loads_x
    by blast
  ultimately show ?thesis by blast
qed

text \<open>
  Claim C6 as stated fails in the Hubei crawler: a checkpoint file that exists but does
  not decode, or cannot be read, makes \<open>load_checkpoint\<close> raise.
\<close>

theorem load_checkpoint_corrupt_counterexample:
  "load_checkpoint example_env (Holds (u ''x'')) = Inl JSONDecodeError
   \<and> load_checkpoint example_env Unreadable = Inl OSError"
  by (simp add: load_checkpoint_def example_loads_x)

section \<open>Properties of the written table\<close>

lemma csv_table_header_set:
  "set (fst (csv_table rows)) = (\<Union>row\<in>set rows. fst ` set row)"
  by (auto simp: csv_table_def Let_def)

lemma csv_table_header_sorted:
  "sorted (fst (csv_table rows)) \<and> distinct (fst (csv_table rows))"
  by (simp add: csv_table_def Let_def)

lemma dict_to_list_nth:
  "i < length fieldnames \<Longrightarrow>
   dict_to_list fieldnames row ! i =
     (case map_of row (fieldnames ! i) of Some v \<Rightarrow> v | None \<Rightarrow> JStr [])"
  by (simp add: dict_to_list_def dict_get_default_def)

lemma csv_table_example:
  "csv_table rows_a_ab = ([u ''a'', u ''b''], [[JInt 1, JStr []], [JInt 2, JInt 3]])"
  by (simp add: csv_table_def rows_a_ab_def Let_def dict_to_list_def dict_get_default_def u_simps)

text \<open>
  Claim C5, as the code has it. The data-circulation crawler, which writes after the
  crawl, takes as column list the sorted set of all keys of all rows, and every row is
  written with one cell per column, the row's value or the empty string when the row lacks
  the column; no key is dropped. The Hefei centre crawler, which writes while it crawls,
  takes as column list the sorted keys of the first row (and writes it as header only when
  it does not append to an existing file); a row is written with the cells of these
  columns.
\<close>

theorem table_columns:
  "set (fst (csv_table rows)) = (\<Union>row\<in>set rows. fst ` set row)
   \<and> sorted (fst (csv_table rows)) \<and> distinct (fst (csv_table rows))
   \<and> snd (csv_table rows) = map (dict_to_list (fst (csv_table rows))) rows
   \<and> length (dict_to_list fieldnames row) = length fieldnames
   \<and> (i < length fieldnames \<longrightarrow>
        dict_to_list fieldnames row ! i =
          (case map_of row (fieldnames ! i) of Some v \<Rightarrow> v | None \<Rightarrow> JStr []))
   \<and> stream_table mode_w (row # rest) =
        (if mode_w then Some (sort (map fst row)) else None,
         map (dict_to_list (sort (map fst row))) (row # rest))"
  using csv_table_header_set csv_table_header_sorted dict_to_list_nth
  by (simp add: csv_table_def Let_def dict_to_list_def stream_table_def)

theorem table_columns_witness:
  "fst (csv_table rows_a_ab) = [u ''a'', u ''b'']
   \<and> dict_to_list [u ''a'', u ''b''] [(u ''a'', JInt 1)] ! 1 = JStr []
   \<and> stream_table True rows_a_ab = (Some [u ''a''], [[JInt 1], [JInt 2]])"
proof -
  note t = table_columns[of rows_a_ab "[u ''a'', u ''b'']" "[(u ''a'', JInt 1)]" 1 True
      "[[(u ''a'', JInt 2), (u ''b'', JInt 3)]]"]
  have m: "map_of [(u ''a'', JInt 1)] ([u ''a'', u ''b''] ! 1) = None"
    by (simp add: u_simps)
  have a: "dict_to_list [u ''a'', u ''b''] [(u ''a'', JInt 1)] ! 1 = JStr []"
    using t m by simp
  have "stream_table True rows_a_ab =
      (Some (sort (map fst [(u ''a'', JInt 1)])),
       map (dict_to_list (sort (map fst [(u ''a'', JInt 1)]))) rows_a_ab)"
    using t by (simp add: rows_a_ab_def)
  then have b: "stream_table True rows_a_ab = (Some [u ''a''], [[JInt 1], [JInt 2]])"
    by (simp add: rows_a_ab_def dict_to_list_def dict_get_default_def)
  show ?thesis using a b csv_table_example by simp
qed

text \<open>
  Claim C5 as stated fails in the Hefei centre crawler: with a first row \<open>{"a": 1}\<close> and a
  second row \<open>{"a": 2, "b": 3}\<close> the header is \<open>a\<close> alone, and the value under \<open>b\<close> is
  not written.
\<close>

theorem header_first_row_counterexample:
  "fst (stream_table True rows_a_ab) = Some [u ''a'']
   \<and> u ''b'' \<in> fst ` set (rows_a_ab ! 1)
   \<and> u ''b'' \<notin> set [u ''a'']
   \<and> snd (stream_table True rows_a_ab) = [[JInt 1], [JInt 2]]"
  by (simp add: stream_table_def rows_a_ab_def dict_to_list_def dict_get_default_def u_simps)

section \<open>Properties of fetching and paging\<close>

lemma fetched_pages_append: "fetched_pages (xs @ ys) = fetched_pages xs @ fetched_pages ys"
  by (induction xs rule: fetched_pages.induct) auto

lemma fetched_pages_replicate: "fetched_pages (replicate k (Fetch p)) = replicate k p"
  by (induction k) auto

lemma fetched_pages_yields: "fetched_pages (map Yield rows) = []"
  by (induction rows) auto

lemma yielded_rows_append: "yielded_rows (xs @ ys) = yielded_rows xs @ yielded_rows ys"
  by (induction xs rule: yielded_rows.induct) auto

lemma yielded_rows_replicate: "yielded_rows (replicate k (Fetch p)) = []"
  by (induction k) auto

lemma yielded_rows_yields: "yielded_rows (map Yield rows) = rows"
  by (induction rows) auto

lemma saved_progress_append:
  "saved_progress cur (xs @ ys) = saved_progress (saved_progress cur xs) ys"
  by (induction cur xs rule: saved_progress.induct) auto

lemma saved_progress_replicate: "saved_progress cur (replicate k (Fetch p)) = cur"
  by (induction k) auto

lemma saved_progress_yields: "saved_progress cur (map Yield rows) = cur"
  by (induction rows) auto

lemma fetch_retry_next:
  "fetch_retry env net p n k = (r, n') \<Longrightarrow> 0 < k \<Longrightarrow> n < n' \<and> n' \<le> n + k"
proof (induction k arbitrary: n)
  case 0
  then show ?case by simp
next
  case (Suc k)
  show ?case
  proof (cases "hc_fetch_page env (net n p)")
    case (Inr d)
    then show ?thesis using Suc.prems by auto
  next
    case (Inl e)
    show ?thesis
    proof (cases "k = 0")
      case True
      then show ?thesis using Suc.prems Inl by auto
    next
      case False
      then have "fetch_retry env net p (Suc n) k = (r, n')" using Suc.prems Inl by simp
      from Suc.IH[OF this] False show ?thesis by auto
    qed
  qed
qed

lemma fetch_retry_Inr:
  "fetch_retry env net p n k = (Inr data, n') \<Longrightarrow> \<exists>m. hc_fetch_page env (net m p) = Inr data"
proof (induction k arbitrary: n)
  case 0
  then show ?case by simp
next
  case (Suc k)
  then show ?case
    by (cases "hc_fetch_page env (net n p)") (auto split: if_splits)
qed

lemma fetch_retry_all_fail:
  "\<forall>j<k. isl (hc_fetch_page env (net (n + j) p)) \<Longrightarrow> 0 < k \<Longrightarrow>
   \<exists>e. fetch_retry env net p n k = (Inl e, n + k)"
proof (induction k arbitrary: n)
  case 0
  then show ?case by simp
next
  case (Suc k)
  from Suc.prems(1) have "isl (hc_fetch_page env (net (n + 0) p))" by blast
  then obtain e where e: "hc_fetch_page env (net n p) = Inl e"
    by (cases "hc_fetch_page env (net n p)") auto
  show ?case
  proof (cases "k = 0")
    case True
    then show ?thesis using e by simp
  next
    case False
    have "\<forall>j<k. isl (hc_fetch_page env (net (Suc n + j) p))"
      using Suc.prems(1) by (metis Suc_less_eq add_Suc_right add_Suc)
    from Suc.IH[OF this] False obtain e' where "fetch_retry env net p (Suc n) k = (Inl e', Suc n + k)"
      by auto
    then show ?thesis using e False by simp
  qed
qed

lemma ordered_yields_save:
  "ordered (Fetched p) (map Yield rows @ Save (p + 1) # tr) = ordered Saved tr"
  by (induction rows) auto

lemma ordered_fetches: "ordered ph (replicate k (Fetch p))"
  by (induction k arbitrary: ph) auto

lemma ordered_fetches_then:
  "0 < k \<Longrightarrow> ordered ph (replicate k (Fetch p) @ evs) = ordered (Fetched p) evs"
proof (induction k arbitrary: ph)
  case 0
  then show ?case by simp
next
  case (Suc k)
  then show ?case by (cases "k = 0") auto
qed

lemma ordered_block:
  "0 < k \<Longrightarrow>
   ordered ph (replicate k (Fetch p) @ map Yield rows @ Save (p + 1) # tr) = ordered Saved tr"
  by (simp add: ordered_fetches_then ordered_yields_save)

lemma iter_loop_Suc:
  "iter_loop (Suc fuel) env net max_pages start_page page_no seen_empty n =
     (if (case max_pages of None \<Rightarrow> False | Some m \<Rightarrow> page_no - start_page + 1 > m)
      then Some ([], None)
      else case fetch_retry env net page_no n 3 of
        (Inl e, n') \<Rightarrow> Some (replicate (n' - n) (Fetch page_no), Some e)
      | (Inr data, n') \<Rightarrow>
          (case process_page env data page_no seen_empty of
             PageError e \<Rightarrow> Some (replicate (n' - n) (Fetch page_no), Some e)
           | PageStop \<Rightarrow> Some (replicate (n' - n) (Fetch page_no), None)
           | PageDone rows seen_empty' stop \<Rightarrow>
               (if stop then Some (replicate (n' - n) (Fetch page_no) @ map Yield rows
                          @ [Save (page_no + 1)], None)
                   else map_option (\<lambda>(tr, r). (replicate (n' - n) (Fetch page_no) @ map Yield rows
                          @ Save (page_no + 1) # tr, r))
                          (iter_loop fuel env net max_pages start_page (page_no + 1)
                             seen_empty' n'))))"
  by (simp add: Let_def split: prod.splits sum.splits page_result.splits)

lemma iter_loop_ordered:
  "iter_loop fuel env net mp sp p se n = Some (tr, r) \<Longrightarrow> ordered ph tr"
proof (induction fuel arbitrary: p se n tr r ph)
  case 0
  then show ?case by simp
next
  case (Suc fuel)
  show ?case
  proof (cases "case mp of None \<Rightarrow> False | Some m \<Rightarrow> p - sp + 1 > m")
    case True
    then show ?thesis using Suc.prems by (simp only: iter_loop_Suc) simp
  next
    case False
    obtain res n' where fr: "fetch_retry env net p n 3 = (res, n')"
      by (cases "fetch_retry env net p n 3")
    from fetch_retry_next[OF fr] have k: "0 < n' - n" by simp
    show ?thesis
    proof (cases res)
      case (Inl e)
      then show ?thesis using Suc.prems False fr
        by (simp only: iter_loop_Suc) (auto simp: ordered_fetches)
    next
      case (Inr data)
      show ?thesis
      proof (cases "process_page env data p se")
        case (PageError e)
        then show ?thesis using Suc.prems False fr Inr
          by (simp only: iter_loop_Suc) (auto simp: ordered_fetches)
      next
        case PageStop
        then show ?thesis using Suc.prems False fr Inr
          by (simp only: iter_loop_Suc) (auto simp: ordered_fetches)
      next
        case (PageDone rows se' stop)
        show ?thesis
        proof (cases stop)
          case True
          then have "tr = replicate (n' - n) (Fetch p) @ map Yield rows @ Save (p + 1) # []"
            using Suc.prems False fr Inr PageDone by (simp only: iter_loop_Suc) simp
          then show ?thesis using k by (simp only: ordered_block) simp
        next
          case nstop: False
          then obtain tr' where rec: "iter_loop fuel env net mp sp (p + 1) se' n' = Some (tr', r)"
            and tr: "tr = replicate (n' - n) (Fetch p) @ map Yield rows @ Save (p + 1) # tr'"
            using Suc.prems False fr Inr PageDone by (simp only: iter_loop_Suc) auto
          from Suc.IH[OF rec] have "ordered Saved tr'" .
          then show ?thesis using k tr by (simp only: ordered_block)
        qed
      qed
    qed
  qed
qed

lemma iter_loop_save_fetched:
  "iter_loop fuel env net mp sp p se n = Some (tr, r) \<Longrightarrow> Save q \<in> set tr \<Longrightarrow>
   \<exists>m data. hc_fetch_page env (net m (q - 1)) = Inr data"
proof (induction fuel arbitrary: p se n tr r)
  case 0
  then show ?case by simp
next
  case (Suc fuel)
  show ?case
  proof (cases "case mp of None \<Rightarrow> False | Some m \<Rightarrow> p - sp + 1 > m")
    case True
    then show ?thesis using Suc.prems by (simp only: iter_loop_Suc) simp
  next
    case False
    obtain res n' where fr: "fetch_retry env net p n 3 = (res, n')"
      by (cases "fetch_retry env net p n 3")
    show ?thesis
    proof (cases res)
      case (Inl e)
      then show ?thesis using Suc.prems False fr
        by (simp only: iter_loop_Suc) auto
    next
      case (Inr data)
      from fetch_retry_Inr fr Inr obtain m where m: "hc_fetch_page env (net m p) = Inr data"
        by blast
      show ?thesis
      proof (cases "process_page env data p se")
        case (PageError e)
        then show ?thesis using Suc.prems False fr Inr
          by (simp only: iter_loop_Suc) auto
      next
        case PageStop
        then show ?thesis using Suc.prems False fr Inr
          by (simp only: iter_loop_Suc) auto
      next
        case (PageDone rows se' stop)
        show ?thesis
        proof (cases stop)
          case True
          then have "tr = replicate (n' - n) (Fetch p) @ map Yield rows @ Save (p + 1) # []"
            using Suc.prems False fr Inr PageDone by (simp only: iter_loop_Suc) simp
          then have "q - 1 = p" using Suc.prems(2) by auto
          then show ?thesis using m by blast
        next
          case nstop: False
          then obtain tr' where rec: "iter_loop fuel env net mp sp (p + 1) se' n' = Some (tr', r)"
            and tr: "tr = replicate (n' - n) (Fetch p) @ map Yield rows @ Save (p + 1) # tr'"
            using Suc.prems False fr Inr PageDone by (simp only: iter_loop_Suc) auto
          from Suc.prems(2) tr have "q = p + 1 \<or> Save q \<in> set tr'" by auto
          then show ?thesis
          proof
            assume "q = p + 1"
            then have "q - 1 = p" by simp
            then show ?thesis using m by blast
          next
            assume "Save q \<in> set tr'"
            then show ?thesis by (rule Suc.IH[OF rec])
          qed
        qed
      qed
    qed
  qed
qed

lemma hc_fetch_not_success:
  assumes "resp_status resp = 200" "resp_json resp = Some (JDict d)"
    and "dict_get d (u ''success'') \<noteq> JBool True"
  shows "isl (hc_fetch_page env (Inr resp))"
  using assms by (cases "is_likely_blocked env resp") (simp_all add: hc_fetch_page_def)

lemma hc_fetch_success_false:
  assumes "resp_status resp = 200" "resp_json resp = Some (JDict d)"
    and "dict_get d (u ''success'') = JBool False"
    and "py_contains (u ''application/json'')
           (env_lower env (case resp_ctype resp of None \<Rightarrow> [] | Some c \<Rightarrow> c))"
  shows "hc_fetch_page env (Inr resp) = Inl (LikelyBlocked ApiSuccessFalse)"
  using assms by (simp add: hc_fetch_page_def is_likely_blocked_def Let_def)

lemma iter_loop_all_fail:
  assumes "\<forall>j<3. isl (hc_fetch_page env (net (n + j) p))"
    and "\<not> (case mp of None \<Rightarrow> False | Some m \<Rightarrow> p - sp + 1 > m)"
  shows "\<exists>e. iter_loop (Suc fuel) env net mp sp p se n = Some (replicate 3 (Fetch p), Some e)"
proof -
  from fetch_retry_all_fail[where k = 3 and env = env and net = net and n = n and p = p]
    assms(1) obtain e where
    "fetch_retry env net p n 3 = (Inl e, n + 3)" by auto
  then show ?thesis using assms(2) by (simp only: iter_loop_Suc) simp
qed

lemma contains_json_ctype: "py_contains (u ''application/json'') (u ''application/json'')"
  by (simp add: u_simps)

lemma login_required_fetch:
  "hc_fetch_page example_env (Inr login_required) = Inl (LikelyBlocked ApiSuccessFalse)"
proof -
  have s: "dict_get [(u ''success'', JBool False), (u ''message'', JStr (u ''login required''))]
      (u ''success'') = JBool False"
    by (simp add: dict_get_def dict_get_default_def)
  have c: "py_contains (u ''application/json'')
           (env_lower example_env (case resp_ctype login_required of None \<Rightarrow> [] | Some c \<Rightarrow> c))"
    using contains_json_ctype by (simp add: login_required_def json_response_def example_env_def)
  show ?thesis
    by (rule hc_fetch_success_false[OF _ _ s c])
       (simp_all add: login_required_def json_response_def)
qed

lemma body_success: "dict_get (page_body meta recs) (u ''success'') = JBool True"
  by (simp add: page_body_def dict_get_def dict_get_default_def)

lemma body_result:
  "py_or (dict_get (page_body meta recs) (u ''result'')) (JDict []) =
     JDict (meta @ [(u ''records'', JList recs)])"
  by (simp add: page_body_def dict_get_def dict_get_default_def py_or_def u_simps)

lemma source25_fetch:
  "hc_fetch_page example_env (source25 meta n p) = Inr (page_body meta (records_of_page p))"
proof -
  have "is_likely_blocked example_env (json_response (page_body meta (records_of_page p))) = None"
    using contains_json_ctype
    by (simp add: is_likely_blocked_def json_response_def example_env_def body_success)
  then show ?thesis
    by (simp add: hc_fetch_page_def source25_def json_response_def body_success)
qed

lemma source25_retry:
  "fetch_retry example_env (source25 meta) p n 3 = (Inr (page_body meta (records_of_page p)), Suc n)"
  by (simp add: numeral_3_eq_3 source25_fetch)

lemma records_no_meta:
  "dict_get ([] @ [(u ''records'', JList recs)]) (u ''records'') = JList recs"
  "dict_get ([] @ [(u ''records'', JList recs)]) (u ''pages'') = JNull"
  by (simp_all add: dict_get_def dict_get_default_def u_simps)

lemma records_pages_meta:
  "dict_get ([(u ''pages'', JInt 3)] @ [(u ''records'', JList recs)]) (u ''records'') = JList recs"
  "dict_get ([(u ''pages'', JInt 3)] @ [(u ''records'', JList recs)]) (u ''pages'') = JInt 3"
  by (simp_all add: dict_get_def dict_get_default_def u_simps)

lemma env_fr: "env_float_repr example_env = float_repr_unused"
  by (simp add: example_env_def)

lemma process_nonempty:
  "recs \<noteq> [] \<Longrightarrow>
   process_page example_env (page_body [] recs) p se =
     PageDone (map (flatten_record float_repr_unused) (dict_rows recs)) 0 False"
  by (simp only: process_page_def body_result json.case Let_def records_no_meta)
     (simp add: py_or_def pages_reached_def env_fr)

lemma process_empty_first:
  "process_page example_env (page_body [] []) p 0 = PageDone [] 1 False"
  by (simp only: process_page_def body_result json.case Let_def records_no_meta)
     (simp add: py_or_def pages_reached_def)

lemma process_empty_second:
  "process_page example_env (page_body [] []) p (Suc 0) = PageStop"
  by (simp only: process_page_def body_result json.case Let_def records_no_meta)
     (simp add: py_or_def pages_reached_def)

lemma process_nonempty_pages:
  "recs \<noteq> [] \<Longrightarrow>
   process_page example_env (page_body [(u ''pages'', JInt 3)] recs) p se =
     PageDone (map (flatten_record float_repr_unused) (dict_rows recs)) 0 (3 \<le> p)"
  by (simp only: process_page_def body_result json.case Let_def records_pages_meta)
     (simp add: py_or_def pages_reached_def env_fr)

lemma records_page_nonempty:
  "records_of_page 1 \<noteq> []" "records_of_page 2 \<noteq> []" "records_of_page 3 \<noteq> []"
  by (simp_all add: records_of_page_def)

lemma records_page_empty: "records_of_page 4 = []" "records_of_page 5 = []"
  by (simp_all add: records_of_page_def)

lemma iter_loop_more_fuel:
  "iter_loop fuel env net mp sp p se n = Some x \<Longrightarrow>
   iter_loop (Suc fuel) env net mp sp p se n = Some x"
proof (induction fuel arbitrary: p se n x)
  case 0
  then show ?case by simp
next
  case (Suc fuel)
  show ?case
  proof (cases "case mp of None \<Rightarrow> False | Some m \<Rightarrow> p - sp + 1 > m")
    case True
    then show ?thesis using Suc.prems by (simp only: iter_loop_Suc) simp
  next
    case False
    obtain res n' where fr: "fetch_retry env net p n 3 = (res, n')"
      by (cases "fetch_retry env net p n 3")
    show ?thesis
    proof (cases res)
      case (Inl e)
      then show ?thesis using Suc.prems False fr
        by (simp only: iter_loop_Suc[of "Suc fuel"]) (simp add: iter_loop_Suc[of fuel])
    next
      case (Inr data)
      show ?thesis
      proof (cases "process_page env data p se")
        case (PageError e)
        then show ?thesis using Suc.prems False fr Inr
          by (simp only: iter_loop_Suc[of "Suc fuel"]) (simp add: iter_loop_Suc[of fuel])
      next
        case PageStop
        then show ?thesis using Suc.prems False fr Inr
          by (simp only: iter_loop_Suc[of "Suc fuel"]) (simp add: iter_loop_Suc[of fuel])
      next
        case (PageDone rows se' stop)
        show ?thesis
        proof (cases stop)
          case True
          then show ?thesis using Suc.prems False fr Inr PageDone
            by (simp only: iter_loop_Suc[of "Suc fuel"]) (simp add: iter_loop_Suc[of fuel])
        next
          case nstop: False
          from Suc.prems obtain y where
            rec: "iter_loop fuel env net mp sp (p + 1) se' n' = Some y"
            using False fr Inr PageDone nstop by (simp only: iter_loop_Suc[of fuel]) auto
          from Suc.IH[OF rec] have "iter_loop (Suc fuel) env net mp sp (p + 1) se' n' = Some y" .
          then show ?thesis using Suc.prems rec False fr Inr PageDone nstop
            by (simp only: iter_loop_Suc[of "Suc fuel"]) (simp add: iter_loop_Suc[of fuel])
        qed
      qed
    qed
  qed
qed

lemma iter25_trace:
  "iter_loop (Suc (Suc (Suc (Suc (Suc 0))))) example_env (source25 []) None 1 1 0 0 =
     Some (Fetch 1 # map Yield (rows_of_page 1) @ Save 2 # Fetch 2 # map Yield (rows_of_page 2)
           @ Save 3 # Fetch 3 # map Yield (rows_of_page 3) @ Save 4 # Fetch 4 # Save 5
           # [Fetch 5], None)"
  by (simp add: iter_loop_Suc source25_retry process_nonempty records_page_nonempty
      records_page_empty process_empty_first process_empty_second rows_of_page_def
      del: iter_loop.simps)

section \<open>Business errors\<close>

text \<open>
  Claim C7. A response with status 200 whose decoded body is a dict with \<open>success\<close> false
  makes \<open>fetch_page\<close> of the Hefei centre crawler raise (the \<open>RuntimeError\<close> of a likely
  block, with the reason that the API says \<open>success=false\<close>, when the content type is
  JSON) instead of returning the body. When the three attempts for a page all raise,
  \<open>iter_records\<close> ends with the last exception after the three requests, without yielding
  a row and without saving progress, so the progress saved before stays. And whenever
  progress \<open>q\<close> is saved, some request for page \<open>q - 1\<close> was fetched and validated.
\<close>

theorem business_error_keeps_checkpoint:
  "(resp_status resp = 200 \<and> resp_json resp = Some (JDict d)
      \<and> dict_get d (u ''success'') = JBool False
     \<longrightarrow> isl (hc_fetch_page env (Inr resp))
        \<and> (py_contains (u ''application/json'')
              (env_lower env (case resp_ctype resp of None \<Rightarrow> [] | Some c \<Rightarrow> c))
            \<longrightarrow> hc_fetch_page env (Inr resp) = Inl (LikelyBlocked ApiSuccessFalse)))
   \<and> ((\<forall>j<3. isl (hc_fetch_page env (net (n + j) p)))
        \<and> \<not> (case mp of None \<Rightarrow> False | Some m \<Rightarrow> p - sp + 1 > m)
     \<longrightarrow> (\<exists>e. iter_loop (Suc fuel) env net mp sp p se n
                = Some (replicate 3 (Fetch p), Some e))
        \<and> saved_progress cur (replicate 3 (Fetch p)) = cur)
   \<and> (iter_loop fuel' env net mp sp p se n = Some (tr, r) \<and> Save q \<in> set tr
     \<longrightarrow> (\<exists>m data. hc_fetch_page env (net m (q - 1)) = Inr data))"
proof -
  have a: "resp_status resp = 200 \<and> resp_json resp = Some (JDict d)
      \<and> dict_get d (u ''success'') = JBool False
     \<longrightarrow> isl (hc_fetch_page env (Inr resp))"
    using hc_fetch_not_success[of resp d env] by auto
  have b: "saved_progress cur (replicate 3 (Fetch p)) = cur"
    by (rule saved_progress_replicate)
  show ?thesis
    using a b hc_fetch_success_false[where resp = resp and d = d and env = env]
      iter_loop_all_fail[where n = n and env = env and net = net and p = p and mp = mp
        and sp = sp and fuel = fuel and se = se]
      iter_loop_save_fetched[where fuel = fuel' and env = env and net = net and mp = mp
        and sp = sp and p = p and se = se and n = n and tr = tr and r = r and q = q]
    by blast
qed

theorem business_error_keeps_checkpoint_witness:
  "hc_fetch_page example_env (Inr login_required) = Inl (LikelyBlocked ApiSuccessFalse)
   \<and> (\<exists>e. iter_loop (Suc 0) example_env source_login_required None 1 1 0 0
          = Some (replicate 3 (Fetch 1), Some e))
   \<and> saved_progress None (replicate 3 (Fetch 1)) = None"
proof -
  have f: "\<forall>j<3. isl (hc_fetch_page example_env (source_login_required (0 + j) 1))"
    by (simp add: source_login_required_def login_required_fetch)
  have s: "dict_get [(u ''success'', JBool False), (u ''message'', JStr (u ''login required''))]
      (u ''success'') = JBool False"
    by (simp add: dict_get_def dict_get_default_def)
  have r: "resp_status login_required = 200"
    "resp_json login_required
       = Some (JDict [(u ''success'', JBool False), (u ''message'', JStr (u ''login required''))])"
    by (simp_all add: login_required_def json_response_def)
  have c: "py_contains (u ''application/json'')
           (env_lower example_env (case resp_ctype login_required of None \<Rightarrow> [] | Some c \<Rightarrow> c))"
    using contains_json_ctype by (simp add: login_required_def json_response_def example_env_def)
  have m: "\<not> (case None :: int option of None \<Rightarrow> False | Some m \<Rightarrow> (1::int) - 1 + 1 > m)"
    by simp
  show ?thesis
    using business_error_keeps_checkpoint[where resp = login_required
        and d = "[(u ''success'', JBool False), (u ''message'', JStr (u ''login required''))]"
        and env = example_env and net = source_login_required and n = 0 and p = 1
        and mp = None and sp = 1 and fuel = 0 and se = 0 and cur = None and fuel' = 0
        and tr = "[]" and r = None and q = 0]
      f s r c m
    by blast
qed

end
